theory Spec2Isabelle
  imports Main
begin

text \<open>
  The registration flow of IndieShots: the server's one-time codes for email verification
  (\<open>generateOTP\<close>, \<open>storeOTP\<close>, \<open>registerWithOTP\<close>, \<open>verifyOTP\<close>, \<open>resendOTP\<close>) and
  the client's \<open>AuthManager\<close> (\<open>client/src/lib/authManager.ts\<close>). Each function of the
  source is a function here under its own name. What a handler mutates (the \<open>otpStore\<close>
  map, the pending \<open>setTimeout\<close> callbacks, the fields of the manager, \<open>localStorage\<close>)
  is a record passed in and returned; the clock and the random draw are arguments; a call
  into a module outside these two files is a parameter, with \<open>None\<close> where it throws.
\<close>

section \<open>JavaScript values shared by both components\<close>

text \<open>
  Objects are association lists in property order, as JavaScript keeps them; a missing
  property reads as \<open>undefined\<close>. Numbers are the integers the program handles
  (timestamps in milliseconds, counters, the \<open>-1\<close> that stands for "unlimited").
\<close>

datatype json =
    JUndefined
  | JNull
  | JBool bool
  | JNum int
  | JStr string
  | JObj "(string \<times> json) list"

type_synonym obj = "(string \<times> json) list"

definition getProp :: "obj \<Rightarrow> string \<Rightarrow> json" where
  "getProp ob k = (case map_of ob k of None \<Rightarrow> JUndefined | Some v \<Rightarrow> v)"

definition hasProp :: "obj \<Rightarrow> string \<Rightarrow> bool" where
  "hasProp ob k = (k \<in> fst ` set ob)"

text \<open>\<open>ob[k] = v\<close>: an existing property keeps its place, a new one goes last.\<close>

definition setProp :: "string \<Rightarrow> json \<Rightarrow> obj \<Rightarrow> obj" where
  "setProp k v ob =
     (if hasProp ob k then map (\<lambda>(k', v'). if k' = k then (k', v) else (k', v')) ob
      else ob @ [(k, v)])"

text \<open>The rest pattern \<open>{k, ...rest}\<close>: the object without the property.\<close>

definition deleteProp :: "string \<Rightarrow> obj \<Rightarrow> obj" where
  "deleteProp k ob = filter (\<lambda>(k', v'). k' \<noteq> k) ob"

text \<open>The spread \<open>{...a, ...b}\<close>: the properties of \<open>b\<close> written over \<open>a\<close>, left to right.\<close>

definition spread :: "obj \<Rightarrow> obj \<Rightarrow> obj" where
  "spread a b = foldl (\<lambda>acc (k, v). setProp k v acc) a b"

text \<open>Truthiness, for \<open>!x\<close>, \<open>x || y\<close> and \<open>x && y\<close>.\<close>

fun truthy :: "json \<Rightarrow> bool" where
  "truthy JUndefined = False"
| "truthy JNull = False"
| "truthy (JBool b) = b"
| "truthy (JNum n) = (n \<noteq> 0)"
| "truthy (JStr s) = (s \<noteq> [])"
| "truthy (JObj ob) = True"

text \<open>
  \<open>a !== b\<close> between a property of the cached object and a property of a freshly parsed
  response: primitives compare by value, two objects are never the same reference.
\<close>

fun strictNeq :: "json \<Rightarrow> json \<Rightarrow> bool" where
  "strictNeq (JObj a) (JObj b) = True"
| "strictNeq a b = (a \<noteq> b)"

subsection \<open>Strings\<close>

text \<open>\<open>String.prototype.toLowerCase\<close> on the ASCII letters; other bytes are kept.\<close>

definition lowerChar :: "char \<Rightarrow> char" where
  "lowerChar c =
     (let n = (of_char c :: nat) in if 65 \<le> n \<and> n \<le> 90 then char_of (n + 32) else c)"

definition toLowerCase :: "string \<Rightarrow> string" where
  "toLowerCase s = map lowerChar s"

text \<open>\<open>Number.prototype.toString\<close> of an integer, in decimal.\<close>

definition digitChar :: "nat \<Rightarrow> char" where
  "digitChar d = char_of (48 + d)"

fun natToString :: "nat \<Rightarrow> string" where
  "natToString n = (if n < 10 then [digitChar n] else natToString (n div 10) @ [digitChar (n mod 10)])"

declare natToString.simps [simp del]

definition toString :: "int \<Rightarrow> string" where
  "toString i = (if i < 0 then CHR ''-'' # natToString (nat (- i)) else natToString (nat i))"

section \<open>Verification Ledger: one-time codes for registration\<close>

subsection \<open>Code generation\<close>

text \<open>
  Node's \<open>crypto.randomInt(min, max)\<close> returns an integer \<open>n\<close> with \<open>min \<le> n < max\<close>:
  it draws a uniform \<open>x\<close> below a multiple of \<open>max - min\<close> and returns
  \<open>x % (max - min) + min\<close>. The draw \<open>x\<close> is the parameter of the model.
\<close>

definition randomInt :: "int \<Rightarrow> int \<Rightarrow> nat \<Rightarrow> int" where
  "randomInt lo hi x = int x mod (hi - lo) + lo"

definition generateOTP :: "nat \<Rightarrow> string" where
  "generateOTP x = toString (randomInt 100000 999999 x)"

subsection \<open>The pending-registration store\<close>

text \<open>
  \<open>otpStore\<close> is the module's \<open>Map\<close> from lower-cased email to the pending entry.
  \<open>timeouts\<close> holds the callbacks registered with \<open>setTimeout\<close> that have not run
  yet: the time each is due and the key it deletes. Times are \<open>Date.now()\<close> in
  milliseconds.
\<close>

record otp_entry =
  otp :: string
  expires :: nat
  userData :: obj
  attempts :: nat

record ledger =
  otpStore :: "string \<rightharpoonup> otp_entry"
  timeouts :: "(nat \<times> string) list"

definition storeOTP :: "string \<Rightarrow> string \<Rightarrow> obj \<Rightarrow> nat \<Rightarrow> ledger \<Rightarrow> ledger" where
  "storeOTP e code ud now L =
     \<lparr> otpStore = (otpStore L)(toLowerCase e \<mapsto>
          \<lparr> otp = code, expires = now + 5 * 60 * 1000, userData = ud, attempts = 0 \<rparr>),
       timeouts = timeouts L @ [(now + 10 * 60 * 1000, toLowerCase e)] \<rparr>"

text \<open>
  The event loop running every callback that is due at \<open>now\<close>: each one deletes its key,
  whatever entry is stored there.
\<close>

definition runTimeouts :: "nat \<Rightarrow> ledger \<Rightarrow> ledger" where
  "runTimeouts now L =
     \<lparr> otpStore = foldl (\<lambda>m (due, k). if due \<le> now then m(k := None) else m) (otpStore L) (timeouts L),
       timeouts = filter (\<lambda>(due, k). now < due) (timeouts L) \<rparr>"

subsection \<open>Requests, responses and collaborators\<close>

record response =
  status :: nat
  body :: obj
  cookie :: "(string \<times> string) option"

definition json_response :: "nat \<Rightarrow> obj \<Rightarrow> response" where
  "json_response st b = \<lparr> status = st, body = b, cookie = None \<rparr>"

text \<open>
  The fields of \<open>req.body\<close> that the handlers read; \<open>None\<close> is an absent field. Fields
  that are present are strings.
\<close>

record register_body =
  firstName :: "string option"
  lastName :: "string option"
  email :: "string option"
  password :: "string option"
  couponCode :: "string option"

text \<open>
  The modules the handlers call and that lie outside this file: zod's email format check,
  the user storage, bcrypt, the promo code service and the JWT signer. A storage or promo
  call that throws is \<open>None\<close>.
\<close>

record env =
  isEmail :: "string \<Rightarrow> bool"
  getUserByEmail :: "string \<Rightarrow> bool option"
  bcryptHash :: "string \<Rightarrow> string"
  validatePromoCode :: "string \<Rightarrow> string \<Rightarrow> bool option"
  createUser :: "obj \<Rightarrow> obj option"
  generateToken :: "json \<Rightarrow> string"

text \<open>\<open>registerSchema.parse\<close>: the message of the first issue, in the order of the schema's keys.\<close>

definition registerSchema_parse :: "env \<Rightarrow> register_body \<Rightarrow> string + (string \<times> string)" where
  "registerSchema_parse E b =
     (case email b of
        None \<Rightarrow> Inl ''Required''
      | Some e \<Rightarrow>
          if \<not> isEmail E e then Inl ''Invalid email address''
          else (case password b of
                  None \<Rightarrow> Inl ''Required''
                | Some p \<Rightarrow>
                    if length p < 8 then Inl ''Password must be at least 8 characters''
                    else Inr (e, p)))"

definition orEmpty :: "string option \<Rightarrow> string" where
  "orEmpty s = (case s of None \<Rightarrow> [] | Some t \<Rightarrow> t)"

definition optStr :: "string option \<Rightarrow> json" where
  "optStr s = (case s of None \<Rightarrow> JUndefined | Some t \<Rightarrow> JStr t)"

subsection \<open>registerWithOTP\<close>

definition promoUpgrades :: "env \<Rightarrow> string option \<Rightarrow> string \<Rightarrow> bool" where
  "promoUpgrades E coupon e =
     (case coupon of
        None \<Rightarrow> False
      | Some c \<Rightarrow>
          if c = [] then False
          else (case validatePromoCode E c (toLowerCase e) of
                  Some True \<Rightarrow> True
                | _ \<Rightarrow> False))"

definition prepareUserData :: "env \<Rightarrow> register_body \<Rightarrow> string \<Rightarrow> string \<Rightarrow> obj" where
  "prepareUserData E b e p =
     (let pro = promoUpgrades E (couponCode b) e in
      [(''email'', JStr (toLowerCase e)),
       (''firstName'', JStr (orEmpty (firstName b))),
       (''lastName'', JStr (orEmpty (lastName b))),
       (''password'', JStr (bcryptHash E p)),
       (''provider'', JStr ''local''),
       (''tier'', JStr (if pro then ''pro'' else ''free'')),
       (''totalPages'', JNum (if pro then -1 else 10)),
       (''maxShotsPerScene'', JNum (if pro then -1 else 5)),
       (''canGenerateStoryboards'', JBool pro),
       (''usedPages'', JNum 0),
       (''couponCode'', optStr (couponCode b))])"

definition registerWithOTP :: "env \<Rightarrow> register_body \<Rightarrow> nat \<Rightarrow> nat \<Rightarrow> ledger \<Rightarrow> response \<times> ledger" where
  "registerWithOTP E b x now L =
     (case registerSchema_parse E b of
        Inl msg \<Rightarrow> (json_response 400 [(''message'', JStr msg)], L)
      | Inr (e, p) \<Rightarrow>
          (case getUserByEmail E (toLowerCase e) of
             None \<Rightarrow> (json_response 500 [(''message'', JStr ''Registration failed'')], L)
           | Some True \<Rightarrow> (json_response 400 [(''message'', JStr ''Email already registered'')], L)
           | Some False \<Rightarrow>
               (let ud = prepareUserData E b e p;
                    code = generateOTP x
                in (json_response 200
                      [(''message'', JStr ''Verification code sent! Check the server console for your OTP.''),
                       (''email'', getProp ud ''email''),
                       (''requiresVerification'', JBool True),
                       (''devNote'', JStr ''For development: Check server console for OTP code'')],
                    storeOTP (toLowerCase e) code ud now L))))"

subsection \<open>verifyOTP\<close>

definition deleteOTP :: "string \<Rightarrow> ledger \<Rightarrow> ledger" where
  "deleteOTP e L = L\<lparr> otpStore := (otpStore L)(toLowerCase e := None) \<rparr>"

definition verifyOTP :: "env \<Rightarrow> string option \<Rightarrow> string option \<Rightarrow> nat \<Rightarrow> ledger \<Rightarrow> response \<times> ledger" where
  "verifyOTP E em code now L =
     (case (em, code) of
        (Some e, Some c) \<Rightarrow>
          if e = [] \<or> c = [] then
            (json_response 400 [(''message'', JStr ''Email and OTP are required'')], L)
          else
            (case otpStore L (toLowerCase e) of
               None \<Rightarrow> (json_response 400 [(''message'', JStr ''No verification pending for this email'')], L)
             | Some stored \<Rightarrow>
                 if now > expires stored then
                   (json_response 400 [(''message'', JStr ''OTP has expired. Please register again.'')],
                    deleteOTP e L)
                 else if attempts stored \<ge> 5 then
                   (json_response 400 [(''message'', JStr ''Too many failed attempts. Please register again.'')],
                    deleteOTP e L)
                 else if otp stored \<noteq> c then
                   (json_response 400
                      [(''message'', JStr ''Invalid OTP code''),
                       (''attemptsLeft'', JNum (5 - int (attempts stored + 1)))],
                    L\<lparr> otpStore := (otpStore L)(toLowerCase e \<mapsto> stored\<lparr> attempts := attempts stored + 1 \<rparr>) \<rparr>)
                 else
                   (case createUser E (spread (userData stored)
                           [(''verificationToken'', JNull), (''createdAt'', JNum (int now)),
                            (''updatedAt'', JNum (int now))]) of
                      None \<Rightarrow> (json_response 500 [(''message'', JStr ''Verification failed'')], L)
                    | Some user \<Rightarrow>
                        (let token = generateToken E (getProp user ''id'') in
                         (\<lparr> status = 201,
                            body = [(''message'', JStr ''Email verified! Account created successfully.''),
                                    (''user'', JObj (deleteProp ''password'' user)),
                                    (''token'', JStr token)],
                            cookie = Some (''auth_token'', token) \<rparr>,
                          deleteOTP e L))))
      | _ \<Rightarrow> (json_response 400 [(''message'', JStr ''Email and OTP are required'')], L))"

subsection \<open>resendOTP\<close>

definition resendOTP :: "string option \<Rightarrow> nat \<Rightarrow> nat \<Rightarrow> ledger \<Rightarrow> response \<times> ledger" where
  "resendOTP em x now L =
     (case em of
        None \<Rightarrow> (json_response 400 [(''message'', JStr ''Email is required'')], L)
      | Some e \<Rightarrow>
          if e = [] then (json_response 400 [(''message'', JStr ''Email is required'')], L)
          else
            (case otpStore L (toLowerCase e) of
               None \<Rightarrow> (json_response 400 [(''message'', JStr ''No verification pending for this email'')], L)
             | Some stored \<Rightarrow>
                 (json_response 200
                    [(''message'', JStr ''New verification code sent! Check server console.''),
                     (''devNote'', JStr ''For development: Check server console for new OTP code'')],
                  L\<lparr> otpStore := (otpStore L)(toLowerCase e \<mapsto>
                        stored\<lparr> otp := generateOTP x, expires := now + 5 * 60 * 1000, attempts := 0 \<rparr>) \<rparr>)))"

subsection \<open>The error responses by the names the specification gives them\<close>

definition NotFoundError :: response where
  "NotFoundError = json_response 400 [(''message'', JStr ''No verification pending for this email'')]"

definition ExpiredError :: response where
  "ExpiredError = json_response 400 [(''message'', JStr ''OTP has expired. Please register again.'')]"

definition RateLimitedError :: response where
  "RateLimitedError = json_response 400 [(''message'', JStr ''Too many failed attempts. Please register again.'')]"

definition MismatchError :: "int \<Rightarrow> response" where
  "MismatchError attemptsLeft =
     json_response 400 [(''message'', JStr ''Invalid OTP code''), (''attemptsLeft'', JNum attemptsLeft)]"

text \<open>Consecutive confirmation requests for one email: the submitted code and the time of each.\<close>

fun submitAll :: "env \<Rightarrow> string \<Rightarrow> (string \<times> nat) list \<Rightarrow> ledger \<Rightarrow> response list \<times> ledger" where
  "submitAll E e [] L = ([], L)"
| "submitAll E e ((c, now) # rest) L =
     (let (r, L1) = verifyOTP E (Some e) (Some c) now L;
          (rs, L2) = submitAll E e rest L1
      in (r # rs, L2))"

section \<open>Session Reconciler: the client's AuthManager\<close>

subsection \<open>More JavaScript: \<open>parseInt\<close>, \<open>JSON.stringify\<close>, \<open>includes\<close>\<close>

definition isSpace :: "char \<Rightarrow> bool" where
  "isSpace c = ((of_char c :: nat) \<in> {9, 10, 11, 12, 13, 32})"

definition isDigit :: "nat \<Rightarrow> char \<Rightarrow> bool" where
  "isDigit radix c =
     (let n = (of_char c :: nat) in
      (48 \<le> n \<and> n \<le> 57) \<or> (radix = 16 \<and> ((97 \<le> n \<and> n \<le> 102) \<or> (65 \<le> n \<and> n \<le> 70))))"

definition digitVal :: "char \<Rightarrow> nat" where
  "digitVal c =
     (let n = (of_char c :: nat) in
      if n \<le> 57 then n - 48 else if 97 \<le> n then n - 87 else n - 55)"

text \<open>
  \<open>parseInt(s)\<close> with no radix: leading white space, a sign, \<open>0x\<close> for hexadecimal, then
  the longest run of digits; \<open>None\<close> is \<open>NaN\<close>.
\<close>

definition parseInt :: "string \<Rightarrow> int option" where
  "parseInt s =
     (let t = dropWhile isSpace s;
          neg = (t \<noteq> [] \<and> hd t = CHR ''-'');
          u = (if t \<noteq> [] \<and> (hd t = CHR ''-'' \<or> hd t = CHR ''+'') then tl t else t);
          hex = (case u of a # b # r \<Rightarrow> a = CHR ''0'' \<and> (b = CHR ''x'' \<or> b = CHR ''X'') | _ \<Rightarrow> False);
          radix = (if hex then 16 else 10);
          ds = takeWhile (isDigit radix) (if hex then drop 2 u else u);
          n = int (foldl (\<lambda>acc c. acc * radix + digitVal c) 0 ds)
      in if ds = [] then None else Some (if neg then - n else n))"

text \<open>
  \<open>JSON.stringify\<close> leaves out the properties whose value is \<open>undefined\<close>; two values
  have the same text when they are equal once those are removed.
\<close>

fun stripUndefined :: "json \<Rightarrow> json" where
  "stripUndefined (JObj ob) =
     JObj (map (\<lambda>kv. (fst kv, stripUndefined (snd kv))) (filter (\<lambda>kv. snd kv \<noteq> JUndefined) ob))"
| "stripUndefined v = v"

definition sameJSON :: "obj option \<Rightarrow> obj option \<Rightarrow> bool" where
  "sameJSON a b = (map_option (\<lambda>ob. stripUndefined (JObj ob)) a = map_option (\<lambda>ob. stripUndefined (JObj ob)) b)"

fun startsWith :: "string \<Rightarrow> string \<Rightarrow> bool" where
  "startsWith s [] = True"
| "startsWith [] (p # ps) = False"
| "startsWith (c # cs) (p # ps) = (c = p \<and> startsWith cs ps)"

fun includesStr :: "string \<Rightarrow> string \<Rightarrow> bool" where
  "includesStr [] p = (p = [])"
| "includesStr (c # cs) p = (startsWith (c # cs) p \<or> includesStr cs p)"

subsection \<open>The manager and the world it acts on\<close>

datatype AuthState = loading | authenticated | unauthenticated | disabled

text \<open>
  The first seven fields are the fields of the class. The others are what it acts on:
  the browser's \<open>localStorage\<close>, the calls made to listeners (oldest first), the number of
  \<open>signOut(auth)\<close> calls, of live \<open>onAuthStateChanged\<close> subscriptions and of requests to
  \<open>/api/auth/firebase-sync\<close>, the times at which a scheduled tier validation is due, and
  whether the page reload has been scheduled.
\<close>

record manager =
  authState :: AuthState
  user :: "obj option"
  listeners :: "nat list"
  unsubscribeAuth :: bool
  isLoggedOut :: bool
  pendingCouponCode :: "string option"
  lastNotifiedState :: "(AuthState \<times> obj option) option"
  localStorage :: "string \<rightharpoonup> string"
  notified :: "(nat \<times> AuthState \<times> obj option) list"
  idpSignOuts :: nat
  idpSubscriptions :: nat
  syncRequests :: nat
  tierValidations :: "nat list"
  reloadScheduled :: bool

definition notifyListeners :: "manager \<Rightarrow> manager" where
  "notifyListeners m =
     (let unchanged = (case lastNotifiedState m of
                         None \<Rightarrow> False
                       | Some (st, u) \<Rightarrow> st = authState m \<and> sameJSON u (user m))
      in if unchanged then m
         else m\<lparr> lastNotifiedState := Some (authState m, user m),
                 notified := notified m @ map (\<lambda>l. (l, authState m, user m)) (listeners m) \<rparr>)"

definition onAuthStateChange :: "nat \<Rightarrow> manager \<Rightarrow> manager" where
  "onAuthStateChange callback m =
     m\<lparr> listeners := listeners m @ [callback],
        notified := notified m @ [(callback, authState m, user m)] \<rparr>"

text \<open>\<open>logoutTimestamp && (Date.now() - parseInt(logoutTimestamp)) < 120000\<close>\<close>

definition recentLogout :: "nat \<Rightarrow> string option \<Rightarrow> bool" where
  "recentLogout now ts =
     (case ts of
        None \<Rightarrow> False
      | Some s \<Rightarrow> s \<noteq> [] \<and> (case parseInt s of None \<Rightarrow> False | Some t \<Rightarrow> int now - t < 120000))"

definition subscribeAuth :: "manager \<Rightarrow> manager" where
  "subscribeAuth m = m\<lparr> unsubscribeAuth := True, idpSubscriptions := idpSubscriptions m + 1 \<rparr>"

definition initialize :: "nat \<Rightarrow> manager \<Rightarrow> manager" where
  "initialize now m =
     (if localStorage m ''auth_disabled'' = Some ''true'' then
        (if recentLogout now (localStorage m ''logout_timestamp'') then
           notifyListeners (m\<lparr> authState := disabled, user := None, isLoggedOut := True \<rparr>)
         else
           subscribeAuth (m\<lparr> localStorage := (localStorage m)(''auth_disabled'' := None, ''logout_timestamp'' := None),
                             isLoggedOut := False \<rparr>))
      else subscribeAuth m)"

text \<open>The logout lock as \<open>initialize\<close> reads it: the flag is set and the timestamp is less than two minutes old.\<close>

definition lockActive :: "nat \<Rightarrow> manager \<Rightarrow> bool" where
  "lockActive now m =
     (localStorage m ''auth_disabled'' = Some ''true'' \<and> recentLogout now (localStorage m ''logout_timestamp''))"

definition newManager :: "nat \<Rightarrow> (string \<rightharpoonup> string) \<Rightarrow> manager" where
  "newManager now ls =
     initialize now
       \<lparr> authState = loading, user = None, listeners = [], unsubscribeAuth = False, isLoggedOut = False,
         pendingCouponCode = None, lastNotifiedState = None, localStorage = ls, notified = [],
         idpSignOuts = 0, idpSubscriptions = 0, syncRequests = 0, tierValidations = [],
         reloadScheduled = False \<rparr>"

subsection \<open>The identity provider's notifications\<close>

text \<open>
  What the token request, the \<open>fetch\<close> and \<open>response.json()\<close> of one exchange come to:
  the token request throws, the fetch or the parse throws, the response is not \<open>ok\<close>, or
  the parsed body.
\<close>

datatype exchange = TokenThrew | FetchThrew | NotOk | Ok json

text \<open>Reading properties of a parsed value: \<open>null\<close> and \<open>undefined\<close> throw, a primitive has none.\<close>

definition propsOf :: "json \<Rightarrow> obj option" where
  "propsOf v = (case v of JObj ob \<Rightarrow> Some ob | JNull \<Rightarrow> None | JUndefined \<Rightarrow> None | _ \<Rightarrow> Some [])"

text \<open>\<open>userData.email?.split('@')[0]\<close>; \<open>None\<close> when \<open>split\<close> is not a function of the value.\<close>

definition emailLocalPart :: "json \<Rightarrow> json option" where
  "emailLocalPart v =
     (case v of
        JUndefined \<Rightarrow> Some JUndefined
      | JNull \<Rightarrow> Some JUndefined
      | JStr s \<Rightarrow> Some (JStr (takeWhile (\<lambda>c. c \<noteq> CHR ''@'') s))
      | _ \<Rightarrow> None)"

definition backendUser :: "json \<Rightarrow> obj option" where
  "backendUser fetched =
     (case propsOf fetched of
        None \<Rightarrow> None
      | Some ud \<Rightarrow>
          (case (if truthy (getProp ud ''displayName'') then Some (getProp ud ''displayName'')
                 else (case emailLocalPart (getProp ud ''email'') of
                         None \<Rightarrow> None
                       | Some part \<Rightarrow> Some (if truthy part then part else JStr ''User''))) of
             None \<Rightarrow> None
           | Some dn \<Rightarrow>
               Some [(''id'', getProp ud ''id''),
                     (''email'', getProp ud ''email''),
                     (''displayName'', dn),
                     (''provider'', if truthy (getProp ud ''provider'') then getProp ud ''provider'' else JStr ''password''),
                     (''tier'', getProp ud ''tier''),
                     (''usedPages'', getProp ud ''usedPages''),
                     (''totalPages'', getProp ud ''totalPages''),
                     (''maxShotsPerScene'', getProp ud ''maxShotsPerScene''),
                     (''canGenerateStoryboards'', getProp ud ''canGenerateStoryboards'')]))"

definition scheduleAutomaticTierValidation :: "nat \<Rightarrow> manager \<Rightarrow> manager" where
  "scheduleAutomaticTierValidation now m =
     (if user m = None then m else m\<lparr> tierValidations := tierValidations m @ [now + 2000] \<rparr>)"

definition sessionFailed :: "manager \<Rightarrow> manager" where
  "sessionFailed m = m\<lparr> authState := unauthenticated, user := None, pendingCouponCode := None \<rparr>"

definition createBackendSession :: "exchange \<Rightarrow> nat \<Rightarrow> manager \<Rightarrow> manager" where
  "createBackendSession ex now m =
     notifyListeners
       (case ex of
          TokenThrew \<Rightarrow> sessionFailed m
        | FetchThrew \<Rightarrow> sessionFailed (m\<lparr> syncRequests := syncRequests m + 1 \<rparr>)
        | NotOk \<Rightarrow> sessionFailed (m\<lparr> syncRequests := syncRequests m + 1 \<rparr>)
        | Ok fetched \<Rightarrow>
            (case backendUser fetched of
               None \<Rightarrow> sessionFailed (m\<lparr> syncRequests := syncRequests m + 1 \<rparr>)
             | Some u \<Rightarrow>
                 scheduleAutomaticTierValidation now
                   (m\<lparr> syncRequests := syncRequests m + 1, user := Some u, authState := authenticated,
                       pendingCouponCode := None \<rparr>)))"

definition forceSignOut :: "manager \<Rightarrow> manager" where
  "forceSignOut m = m\<lparr> idpSignOuts := idpSignOuts m + 1 \<rparr>"

text \<open>
  The callback given to \<open>onAuthStateChanged\<close>, run for one notification: \<open>firebaseUser\<close> is
  the signed-in identity or \<open>None\<close>, \<open>ex\<close> what the exchange would come to, \<open>now\<close> the clock.
\<close>

definition authListener :: "obj option \<Rightarrow> exchange \<Rightarrow> nat \<Rightarrow> manager \<Rightarrow> manager" where
  "authListener firebaseUser ex now m =
     (if authState m = disabled \<or> isLoggedOut m
         \<or> recentLogout now (localStorage m ''logout_timestamp'')
         \<or> localStorage m ''auth_disabled'' = Some ''true'' then
        notifyListeners
          ((if firebaseUser \<noteq> None then forceSignOut m else m)\<lparr> authState := disabled, user := None \<rparr>)
      else
        (case firebaseUser of
           Some fu \<Rightarrow> createBackendSession ex now m
         | None \<Rightarrow> notifyListeners (m\<lparr> authState := unauthenticated, user := None \<rparr>)))"

subsection \<open>logout and enableAuth\<close>

text \<open>The part of \<open>logout\<close> that runs before its first \<open>await\<close>.\<close>

definition logout_begin :: "nat \<Rightarrow> manager \<Rightarrow> manager" where
  "logout_begin now m =
     (let m1 = notifyListeners
                 (m\<lparr> isLoggedOut := True, authState := disabled, user := None,
                     localStorage := (localStorage m)(''auth_disabled'' \<mapsto> ''true'',
                                                       ''logout_timestamp'' \<mapsto> toString (int now)) \<rparr>)
      in if unsubscribeAuth m1
         then m1\<lparr> idpSubscriptions := idpSubscriptions m1 - 1, unsubscribeAuth := False \<rparr>
         else m1)"

definition clearFirebaseData :: "manager \<Rightarrow> manager" where
  "clearFirebaseData m =
     m\<lparr> localStorage :=
          (\<lambda>k. if startsWith k ''firebase:'' \<or> includesStr k ''firebase'' \<or> includesStr k ''auth''
                   \<or> k = ''auth_disabled'' \<or> k = ''logout_timestamp''
                then None else localStorage m k) \<rparr>"

text \<open>The rest of \<open>logout\<close>, once the sign-out and the backend call have settled either way.\<close>

definition logout_teardown :: "manager \<Rightarrow> manager" where
  "logout_teardown m = (clearFirebaseData (m\<lparr> idpSignOuts := idpSignOuts m + 1 \<rparr>))\<lparr> reloadScheduled := True \<rparr>"

definition logout :: "nat \<Rightarrow> manager \<Rightarrow> manager" where
  "logout now m = logout_teardown (logout_begin now m)"

definition enableAuth :: "nat \<Rightarrow> manager \<Rightarrow> manager" where
  "enableAuth now m =
     (let m1 = notifyListeners
                 (m\<lparr> localStorage := (localStorage m)(''auth_disabled'' := None, ''logout_timestamp'' := None),
                     isLoggedOut := False, authState := loading \<rparr>);
          m2 = (if unsubscribeAuth m1 then m1\<lparr> idpSubscriptions := idpSubscriptions m1 - 1 \<rparr> else m1)
      in initialize now m2)"

subsection \<open>Updating the cached user\<close>

definition objOf :: "json \<Rightarrow> obj" where
  "objOf v = (case v of JObj ob \<Rightarrow> ob | _ \<Rightarrow> [])"

definition updateUserData :: "json \<Rightarrow> manager \<Rightarrow> manager" where
  "updateUserData fetched m =
     (case user m of
        None \<Rightarrow> m
      | Some u \<Rightarrow>
          (let isPremiumDemo = (getProp u ''email'' = JStr ''premium@demo.com'');
               ud = (if isPremiumDemo
                     then spread (objOf fetched)
                            [(''tier'', JStr ''pro''), (''totalPages'', JNum (- 1)),
                             (''maxShotsPerScene'', JNum (- 1)), (''canGenerateStoryboards'', JBool True)]
                     else objOf fetched)
           in notifyListeners (m\<lparr> user := Some (spread u ud) \<rparr>)))"

definition refreshFromDatabase :: "exchange \<Rightarrow> manager \<Rightarrow> manager" where
  "refreshFromDatabase ex m = (case ex of Ok fetched \<Rightarrow> updateUserData fetched m | _ \<Rightarrow> m)"

definition validateAndUpdateTier :: "exchange \<Rightarrow> manager \<Rightarrow> manager" where
  "validateAndUpdateTier ex m =
     (case user m of
        None \<Rightarrow> m
      | Some u \<Rightarrow>
          (case ex of
             Ok result \<Rightarrow>
               (case propsOf result of
                  None \<Rightarrow> m
                | Some r \<Rightarrow>
                    (case propsOf (getProp r ''user'') of
                       None \<Rightarrow> m
                     | Some freshUserData \<Rightarrow>
                         if strictNeq (getProp freshUserData ''tier'') (getProp u ''tier'')
                            \<or> strictNeq (getProp freshUserData ''canGenerateStoryboards'') (getProp u ''canGenerateStoryboards'')
                            \<or> strictNeq (getProp freshUserData ''maxShotsPerScene'') (getProp u ''maxShotsPerScene'')
                         then notifyListeners
                                (m\<lparr> user := Some (spread u
                                      [(''tier'', getProp freshUserData ''tier''),
                                       (''totalPages'', getProp freshUserData ''totalPages''),
                                       (''maxShotsPerScene'', getProp freshUserData ''maxShotsPerScene''),
                                       (''canGenerateStoryboards'', getProp freshUserData ''canGenerateStoryboards'')]) \<rparr>)
                         else m))
           | _ \<Rightarrow> m))"

section \<open>Concrete inputs\<close>

definition demoEnv :: env where
  "demoEnv =
     \<lparr> isEmail = (\<lambda>s. CHR ''@'' \<in> set s),
       getUserByEmail = (\<lambda>e. Some False),
       bcryptHash = (\<lambda>p. ''$2b$10$'' @ p),
       validatePromoCode = (\<lambda>c e. Some (c = ''INDIE2025'')),
       createUser = (\<lambda>u. Some ((''id'', JNum 1) # u)),
       generateToken = (\<lambda>i. ''jwt'') \<rparr>"

definition demoLedger :: ledger where
  "demoLedger =
     \<lparr> otpStore = [''user@test.com'' \<mapsto>
                      \<lparr> otp = ''123456'', expires = 300000, userData = [], attempts = 0 \<rparr>],
       timeouts = [(600000, ''user@test.com'')] \<rparr>"

definition emptyLedger :: ledger where
  "emptyLedger = \<lparr> otpStore = Map.empty, timeouts = [] \<rparr>"

definition demoBody :: register_body where
  "demoBody =
     \<lparr> firstName = Some ''Ada'', lastName = None, email = Some ''User@Test.com'',
       password = Some ''correct horse'', couponCode = None \<rparr>"

definition repeatLedger :: ledger where
  "repeatLedger =
     \<lparr> otpStore = [''user@test.com'' \<mapsto>
                      \<lparr> otp = ''100000'', expires = 300000, userData = [], attempts = 3 \<rparr>],
       timeouts = [(600000, ''user@test.com'')] \<rparr>"

definition demoFirebaseUser :: obj where
  "demoFirebaseUser = [(''uid'', JStr ''u7''), (''email'', JStr ''ada@test.com'')]"

definition demoBackendUser :: json where
  "demoBackendUser =
     JObj [(''id'', JNum 7), (''email'', JStr ''ada@test.com''), (''displayName'', JNull),
           (''provider'', JStr ''password''), (''tier'', JStr ''free''), (''usedPages'', JNum 2),
           (''totalPages'', JNum 10), (''maxShotsPerScene'', JNum 5),
           (''canGenerateStoryboards'', JBool False)]"

text \<open>A manager started with an empty \<open>localStorage\<close>, one listener, signed in at time 1000.\<close>

definition demoManager :: manager where
  "demoManager =
     authListener (Some demoFirebaseUser) (Ok demoBackendUser) 1000
       (onAuthStateChange 0 (newManager 0 Map.empty))"

definition premiumBackendUser :: json where
  "premiumBackendUser =
     JObj [(''id'', JNum 1), (''email'', JStr ''premium@demo.com''), (''displayName'', JStr ''Premium Demo''),
           (''provider'', JStr ''password''), (''tier'', JStr ''pro''), (''usedPages'', JNum 0),
           (''totalPages'', JNum (- 1)), (''maxShotsPerScene'', JNum (- 1)),
           (''canGenerateStoryboards'', JBool True)]"

definition premiumManager :: manager where
  "premiumManager =
     authListener (Some [(''uid'', JStr ''u1''), (''email'', JStr ''premium@demo.com'')])
       (Ok premiumBackendUser) 1000 (onAuthStateChange 0 (newManager 0 Map.empty))"

text \<open>What the backend answers for an account it holds at the free tier.\<close>

definition freeTierData :: json where
  "freeTierData =
     JObj [(''email'', JStr ''premium@demo.com''), (''tier'', JStr ''free''), (''totalPages'', JNum 10),
           (''maxShotsPerScene'', JNum 5), (''canGenerateStoryboards'', JBool False)]"

text \<open>A refresh that differs from the cached user of \<open>demoManager\<close> in \<open>totalPages\<close> only.\<close>

definition quotaOnlyRefresh :: json where
  "quotaOnlyRefresh =
     JObj [(''user'',
            JObj [(''id'', JNum 7), (''email'', JStr ''ada@test.com''), (''tier'', JStr ''free''),
                  (''usedPages'', JNum 2), (''totalPages'', JNum 100), (''maxShotsPerScene'', JNum 5),
                  (''canGenerateStoryboards'', JBool False)])]"

text \<open>A refresh that differs in the tier as well.\<close>

definition upgradeRefresh :: json where
  "upgradeRefresh =
     JObj [(''user'',
            JObj [(''id'', JNum 99), (''email'', JStr ''other@test.com''), (''tier'', JStr ''pro''),
                  (''usedPages'', JNum 2), (''totalPages'', JNum (- 1)), (''maxShotsPerScene'', JNum (- 1)),
                  (''canGenerateStoryboards'', JBool True)])]"


section \<open>Properties of the Verification Ledger\<close>

subsection \<open>Strings and numbers\<close>

lemma lowerChar_idem: "lowerChar (lowerChar c) = lowerChar c"
  by (auto simp: lowerChar_def Let_def)

lemma toLowerCase_idem: "toLowerCase (toLowerCase s) = toLowerCase s"
  by (simp add: toLowerCase_def lowerChar_idem)

lemma toLowerCase_demo:
  "toLowerCase ''user@test.com'' = ''user@test.com''"
  "toLowerCase ''User@Test.com'' = ''user@test.com''"
  by (simp_all add: toLowerCase_def lowerChar_def char_of_eq_iff)

lemma natToString_numeral:
  "natToString (numeral k) =
     (if (numeral k :: nat) < 10 then [digitChar (numeral k)]
      else natToString (numeral k div 10) @ [digitChar (numeral k mod 10)])"
  by (rule natToString.simps)

lemma natToString_small: "natToString 0 = ''0''" "natToString (Suc 0) = ''1''"
  by (simp_all add: natToString.simps digitChar_def char_of_eq_iff)

lemmas decimal_eval = natToString_numeral natToString_small digitChar_def char_of_eq_iff

lemma natToString_nonempty: "natToString n \<noteq> []"
  by (subst natToString.simps) simp

lemma of_char_digitChar: "d < 10 \<Longrightarrow> of_char (digitChar d) = 48 + d"
  by (simp add: digitChar_def)

lemma digitChar_inj: "d < 10 \<Longrightarrow> d' < 10 \<Longrightarrow> digitChar d = digitChar d' \<Longrightarrow> d = d'"
  by (metis of_char_digitChar add_left_cancel)

lemma natToString_inj: "natToString n = natToString m \<Longrightarrow> n = m"
proof (induction n arbitrary: m rule: natToString.induct)
  case (1 n)
  note eq = 1(2)
  show ?case
  proof (cases "n < 10")
    case small: True
    show ?thesis
    proof (cases "m < 10")
      case True
      with small eq show ?thesis
        by (simp add: natToString.simps[of n] natToString.simps[of m] digitChar_inj)
    next
      case False
      with small eq show ?thesis
        by (simp add: natToString.simps[of n] natToString.simps[of m] natToString_nonempty[symmetric])
    qed
  next
    case big: False
    show ?thesis
    proof (cases "m < 10")
      case True
      with big eq show ?thesis
        by (simp add: natToString.simps[of n] natToString.simps[of m] natToString_nonempty)
    next
      case False
      with big eq have front: "natToString (n div 10) = natToString (m div 10)"
        and lastd: "digitChar (n mod 10) = digitChar (m mod 10)"
        by (simp_all add: natToString.simps[of n] natToString.simps[of m])
      from 1(1)[OF big front] have "n div 10 = m div 10" .
      moreover from lastd have "n mod 10 = m mod 10" by (intro digitChar_inj) simp_all
      ultimately show ?thesis by (metis div_mult_mod_eq)
    qed
  qed
qed

lemma randomInt_bounds:
  assumes "lo < hi"
  shows "lo \<le> randomInt lo hi x \<and> randomInt lo hi x < hi"
proof -
  have pos: "0 < hi - lo" using assms by simp
  show ?thesis
    using pos_mod_bound[OF pos, of "int x"] pos_mod_sign[OF pos, of "int x"]
    by (simp add: randomInt_def)
qed

lemma generateOTP_demo: "generateOTP 23456 = ''123456''" "generateOTP 0 = ''100000''"
  "generateOTP 899998 = ''999998''" "generateOTP 899999 = ''100000''"
  by (simp_all add: generateOTP_def randomInt_def toString_def decimal_eval)

lemma generateOTP_reaches:
  assumes "100000 \<le> n" and "n \<le> 999998"
  shows "generateOTP (nat (n - 100000)) = toString n"
  using assms by (simp add: generateOTP_def randomInt_def)

text \<open>
  C3. The code is \<open>randomInt(100000, 999999)\<close> in decimal, and \<open>randomInt\<close> never returns its
  upper bound: every output is one of 100000, ..., 999998 and \<open>999999\<close> is never produced.
\<close>

theorem generateOTP_never_999999:
  "generateOTP x \<noteq> ''999999'' \<and> (\<exists>n. 100000 \<le> n \<and> n \<le> 999998 \<and> generateOTP x = toString n)"
proof -
  let ?n = "randomInt 100000 999999 x"
  have r: "100000 \<le> ?n" "?n < 999999" using randomInt_bounds[of 100000 999999 x] by simp_all
  have s: "natToString 999999 = ''999999''" by (simp add: decimal_eval)
  have "generateOTP x = natToString (nat ?n)" using r by (simp add: generateOTP_def toString_def)
  moreover have "nat ?n \<noteq> 999999" using r by simp
  ultimately have "generateOTP x \<noteq> ''999999''" using natToString_inj s by metis
  moreover have "generateOTP x = toString ?n" by (simp add: generateOTP_def)
  moreover have "?n \<le> 999998" using r by simp
  ultimately show ?thesis using r(1) by blast
qed

subsection \<open>The branches of \<open>verifyOTP\<close> and \<open>resendOTP\<close>\<close>

lemma verifyOTP_mismatch_step:
  assumes "otpStore L (toLowerCase e) = Some stored" "e \<noteq> []" "c \<noteq> []"
    "now \<le> expires stored" "attempts stored < 5" "c \<noteq> otp stored"
  shows "verifyOTP E (Some e) (Some c) now L =
           (MismatchError (5 - int (attempts stored + 1)),
            L\<lparr> otpStore := (otpStore L)(toLowerCase e \<mapsto> stored\<lparr> attempts := attempts stored + 1 \<rparr>) \<rparr>)"
  using assms by (auto simp: verifyOTP_def MismatchError_def)

lemma verifyOTP_rate_limited:
  assumes "otpStore L (toLowerCase e) = Some stored" "e \<noteq> []" "c \<noteq> []"
    "now \<le> expires stored" "attempts stored \<ge> 5"
  shows "verifyOTP E (Some e) (Some c) now L = (RateLimitedError, deleteOTP e L)"
  using assms by (auto simp: verifyOTP_def RateLimitedError_def)

lemma verifyOTP_expired:
  assumes "otpStore L (toLowerCase e) = Some stored" "e \<noteq> []" "c \<noteq> []"
    "now > expires stored"
  shows "verifyOTP E (Some e) (Some c) now L = (ExpiredError, deleteOTP e L)"
  using assms by (auto simp: verifyOTP_def ExpiredError_def)

lemma verifyOTP_not_found:
  assumes "otpStore L (toLowerCase e) = None" "e \<noteq> []" "c \<noteq> []"
  shows "verifyOTP E (Some e) (Some c) now L = (NotFoundError, L)"
  using assms by (auto simp: verifyOTP_def NotFoundError_def)

lemma verifyOTP_created:
  assumes "status (fst (verifyOTP E em code now L)) = 201"
  shows "\<exists>e c. em = Some e \<and> code = Some c \<and> e \<noteq> [] \<and> c \<noteq> [] \<and>
           snd (verifyOTP E em code now L) = deleteOTP e L"
proof -
  obtain e where em: "em = Some e"
    using assms by (cases em) (simp_all add: verifyOTP_def json_response_def)
  obtain c where code: "code = Some c"
    using assms em by (cases code) (simp_all add: verifyOTP_def json_response_def)
  have ne: "e \<noteq> []" "c \<noteq> []"
    using assms em code by (auto simp: verifyOTP_def json_response_def split: if_splits)
  obtain stored where st: "otpStore L (toLowerCase e) = Some stored"
    using assms em code ne by (cases "otpStore L (toLowerCase e)") (simp_all add: verifyOTP_def json_response_def)
  have live: "\<not> now > expires stored" "\<not> attempts stored \<ge> 5" "otp stored = c"
    using assms em code ne st by (auto simp: verifyOTP_def json_response_def split: if_splits)
  obtain created where cr: "createUser E (spread (userData stored)
         [(''verificationToken'', JNull), (''createdAt'', JNum (int now)), (''updatedAt'', JNum (int now))]) = Some created"
    using assms em code ne st live
    by (cases "createUser E (spread (userData stored)
         [(''verificationToken'', JNull), (''createdAt'', JNum (int now)), (''updatedAt'', JNum (int now))])")
       (simp_all add: verifyOTP_def json_response_def)
  have "snd (verifyOTP E em code now L) = deleteOTP e L"
    using em code ne st live cr by (simp add: verifyOTP_def Let_def)
  then show ?thesis using em code ne by simp
qed

lemma resendOTP_not_found:
  assumes "otpStore L (toLowerCase e) = None" "e \<noteq> []"
  shows "resendOTP (Some e) x now L = (NotFoundError, L)"
  using assms by (simp add: resendOTP_def NotFoundError_def)

lemma resendOTP_pending:
  assumes "otpStore L (toLowerCase e) = Some stored" "e \<noteq> []"
  shows "resendOTP (Some e) x now L =
           (json_response 200
              [(''message'', JStr ''New verification code sent! Check server console.''),
               (''devNote'', JStr ''For development: Check server console for new OTP code'')],
            L\<lparr> otpStore := (otpStore L)(toLowerCase e \<mapsto>
                  stored\<lparr> otp := generateOTP x, expires := now + 300000, attempts := 0 \<rparr>) \<rparr>)"
  using assms by (simp add: resendOTP_def)

lemma deleteOTP_store [simp]: "otpStore (deleteOTP e L) (toLowerCase e) = None"
  by (simp add: deleteOTP_def)

lemma deleteOTP_timeouts [simp]: "timeouts (deleteOTP e L) = timeouts L"
  by (simp add: deleteOTP_def)

lemma submitAll_mismatches:
  assumes "otpStore L (toLowerCase e) = Some stored" "e \<noteq> []"
    "attempts stored + length subs \<le> 5"
    "\<forall>(c, now) \<in> set subs. c \<noteq> [] \<and> c \<noteq> otp stored \<and> now \<le> expires stored"
  shows "submitAll E e subs L =
           (map (\<lambda>i. MismatchError (5 - int (attempts stored + i + 1))) [0..<length subs],
            L\<lparr> otpStore := (otpStore L)(toLowerCase e \<mapsto> stored\<lparr> attempts := attempts stored + length subs \<rparr>) \<rparr>)"
  using assms
proof (induction subs arbitrary: L stored)
  case Nil
  then show ?case by (simp add: map_upd_triv)
next
  case (Cons a subs)
  obtain c now where a: "a = (c, now)" by (cases a)
  let ?st = "stored\<lparr> attempts := attempts stored + 1 \<rparr>"
  let ?L1 = "L\<lparr> otpStore := (otpStore L)(toLowerCase e \<mapsto> ?st) \<rparr>"
  have step: "verifyOTP E (Some e) (Some c) now L = (MismatchError (5 - int (attempts stored + 1)), ?L1)"
    using Cons.prems a by (intro verifyOTP_mismatch_step) auto
  have ih: "submitAll E e subs ?L1 =
           (map (\<lambda>i. MismatchError (5 - int (attempts ?st + i + 1))) [0..<length subs],
            ?L1\<lparr> otpStore := (otpStore ?L1)(toLowerCase e \<mapsto> ?st\<lparr> attempts := attempts ?st + length subs \<rparr>) \<rparr>)"
    using Cons.prems a by (intro Cons.IH) auto
  have B: "MismatchError (5 - int (attempts stored + 1)) # map (\<lambda>i. MismatchError (5 - int (attempts ?st + i + 1))) [0..<length subs]
      = map (\<lambda>i. MismatchError (5 - int (attempts stored + i + 1))) [0..<length (a # subs)]"
    by (simp add: upt_conv_Cons map_Suc_upt[symmetric] del: upt_Suc)
  have C: "?L1\<lparr> otpStore := (otpStore ?L1)(toLowerCase e \<mapsto> ?st\<lparr> attempts := attempts ?st + length subs \<rparr>) \<rparr>
      = L\<lparr> otpStore := (otpStore L)(toLowerCase e \<mapsto> stored\<lparr> attempts := attempts stored + length (a # subs) \<rparr>) \<rparr>"
    by simp
  have A: "submitAll E e (a # subs) L =
      (MismatchError (5 - int (attempts stored + 1)) # map (\<lambda>i. MismatchError (5 - int (attempts ?st + i + 1))) [0..<length subs],
       ?L1\<lparr> otpStore := (otpStore ?L1)(toLowerCase e \<mapsto> ?st\<lparr> attempts := attempts ?st + length subs \<rparr>) \<rparr>)"
    unfolding a by (simp only: submitAll.simps step ih Let_def prod.case)
  show ?case by (simp only: A B C)
qed

text \<open>
  C2. A pending registration has \<open>attempts stored\<close> wrong submissions behind it. Any run of
  further submissions, each with a code that is given, differs from the stored one and
  arrives before the expiry, is answered by the mismatch response with
  \<open>attemptsLeft = 5 - attempts\<close>, the counter being the incremented one; the counter ends at
  the number of wrong submissions. Once that number is five, the next submission before
  the expiry, whatever code it carries (the stored one included), is answered by the
  rate-limit response and the record is deleted.
\<close>

theorem verifyOTP_wrong_codes_count_down:
  assumes "otpStore L (toLowerCase e) = Some stored" and "e \<noteq> []"
    and "attempts stored + length subs \<le> 5"
    and "\<forall>(c, now) \<in> set subs. c \<noteq> [] \<and> c \<noteq> otp stored \<and> now \<le> expires stored"
  shows "fst (submitAll E e subs L) =
           map (\<lambda>i. MismatchError (5 - int (attempts stored + i + 1))) [0..<length subs]
       \<and> otpStore (snd (submitAll E e subs L)) (toLowerCase e) =
           Some (stored\<lparr> attempts := attempts stored + length subs \<rparr>)
       \<and> (attempts stored + length subs = 5 \<longrightarrow>
            (\<forall>c6 now6. c6 \<noteq> [] \<and> now6 \<le> expires stored \<longrightarrow>
               fst (verifyOTP E (Some e) (Some c6) now6 (snd (submitAll E e subs L))) = RateLimitedError
             \<and> otpStore (snd (verifyOTP E (Some e) (Some c6) now6 (snd (submitAll E e subs L))))
                  (toLowerCase e) = None))"
proof -
  let ?st = "stored\<lparr> attempts := attempts stored + length subs \<rparr>"
  let ?L5 = "L\<lparr> otpStore := (otpStore L)(toLowerCase e \<mapsto> ?st) \<rparr>"
  have run: "submitAll E e subs L =
      (map (\<lambda>i. MismatchError (5 - int (attempts stored + i + 1))) [0..<length subs], ?L5)"
    using assms by (rule submitAll_mismatches)
  have pending: "otpStore ?L5 (toLowerCase e) = Some ?st" by simp
  have sixth: "verifyOTP E (Some e) (Some c6) now6 ?L5 = (RateLimitedError, deleteOTP e ?L5)"
    if "attempts stored + length subs = 5" "c6 \<noteq> []" "now6 \<le> expires stored" for c6 now6
    using that assms(2) by (intro verifyOTP_rate_limited[OF pending]) simp_all
  show ?thesis
    unfolding run fst_conv snd_conv using pending sixth by simp
qed

theorem verifyOTP_wrong_codes_count_down_witness:
  "otpStore demoLedger (toLowerCase ''user@test.com'') =
     Some \<lparr> otp = ''123456'', expires = 300000, userData = [], attempts = 0 \<rparr>
   \<and> fst (submitAll demoEnv ''user@test.com''
            [(''000000'', 1000), (''111111'', 2000), (''222222'', 3000), (''333333'', 4000), (''12345'', 300000)]
            demoLedger)
       = [MismatchError 4, MismatchError 3, MismatchError 2, MismatchError 1, MismatchError 0]
   \<and> fst (verifyOTP demoEnv (Some ''user@test.com'') (Some ''123456'') 5000
            (snd (submitAll demoEnv ''user@test.com''
                    [(''000000'', 1000), (''111111'', 2000), (''222222'', 3000), (''333333'', 4000), (''12345'', 300000)]
                    demoLedger))) = RateLimitedError
   \<and> otpStore (snd (verifyOTP demoEnv (Some ''user@test.com'') (Some ''123456'') 5000
            (snd (submitAll demoEnv ''user@test.com''
                    [(''000000'', 1000), (''111111'', 2000), (''222222'', 3000), (''333333'', 4000), (''12345'', 300000)]
                    demoLedger)))) (toLowerCase ''user@test.com'') = None"
proof -
  let ?stored = "\<lparr> otp = ''123456'', expires = 300000, userData = [], attempts = 0 \<rparr>"
  have p: "otpStore demoLedger (toLowerCase ''user@test.com'') = Some ?stored"
    by (simp add: demoLedger_def toLowerCase_demo)
  have m: "map (\<lambda>i. MismatchError (5 - int (i + 1))) [0..<5]
        = [MismatchError 4, MismatchError 3, MismatchError 2, MismatchError 1, MismatchError 0]"
    by (simp add: upt_rec)
  show ?thesis
    using verifyOTP_wrong_codes_count_down[OF p, of
        "[(''000000'', 1000), (''111111'', 2000), (''222222'', 3000), (''333333'', 4000), (''12345'', 300000)]"
        demoEnv] p m
    by simp
qed

text \<open>
  C5. A confirmation that carries an email and a code and arrives after \<open>expires\<close> is
  answered by the expiry response and deletes the pending record; a reissue for the same
  email right after it finds nothing.
\<close>

theorem verifyOTP_expired_deletes:
  assumes "otpStore L (toLowerCase e) = Some stored" and "e \<noteq> []" and "c \<noteq> []"
    and "now > expires stored"
  shows "fst (verifyOTP E (Some e) (Some c) now L) = ExpiredError
       \<and> otpStore (snd (verifyOTP E (Some e) (Some c) now L)) (toLowerCase e) = None
       \<and> fst (resendOTP (Some e) x later (snd (verifyOTP E (Some e) (Some c) now L))) = NotFoundError"
proof -
  have v: "verifyOTP E (Some e) (Some c) now L = (ExpiredError, deleteOTP e L)"
    using assms by (rule verifyOTP_expired)
  have "resendOTP (Some e) x later (deleteOTP e L) = (NotFoundError, deleteOTP e L)"
    using assms(2) by (intro resendOTP_not_found) simp_all
  then show ?thesis unfolding v by simp
qed

theorem verifyOTP_expired_deletes_witness:
  "otpStore demoLedger (toLowerCase ''user@test.com'') =
     Some \<lparr> otp = ''123456'', expires = 300000, userData = [], attempts = 0 \<rparr>
   \<and> (300001 :: nat) > 300000
   \<and> fst (verifyOTP demoEnv (Some ''user@test.com'') (Some ''123456'') 300001 demoLedger) = ExpiredError
   \<and> otpStore (snd (verifyOTP demoEnv (Some ''user@test.com'') (Some ''123456'') 300001 demoLedger))
        (toLowerCase ''user@test.com'') = None
   \<and> fst (resendOTP (Some ''user@test.com'') 7 300002
           (snd (verifyOTP demoEnv (Some ''user@test.com'') (Some ''123456'') 300001 demoLedger))) = NotFoundError"
proof -
  have p: "otpStore demoLedger (toLowerCase ''user@test.com'') =
     Some \<lparr> otp = ''123456'', expires = 300000, userData = [], attempts = 0 \<rparr>"
    by (simp add: demoLedger_def toLowerCase_demo)
  show ?thesis
    using verifyOTP_expired_deletes[OF p, of "''123456''" 300001 demoEnv 7 300002] p by simp
qed

text \<open>
  C6. A confirmation answered with 201 has deleted the pending record: the same request
  sent again, at any time and whatever the collaborators do, finds nothing pending.
\<close>

theorem verifyOTP_not_idempotent:
  assumes "status (fst (verifyOTP E em code now L)) = 201"
  shows "(\<exists>e. em = Some e \<and> otpStore (snd (verifyOTP E em code now L)) (toLowerCase e) = None)
       \<and> verifyOTP E' em code later (snd (verifyOTP E em code now L))
           = (NotFoundError, snd (verifyOTP E em code now L))"
proof -
  from verifyOTP_created[OF assms] obtain e c where
    ec: "em = Some e" "code = Some c" "e \<noteq> []" "c \<noteq> []"
    and after: "snd (verifyOTP E em code now L) = deleteOTP e L"
    by blast
  have "verifyOTP E' (Some e) (Some c) later (deleteOTP e L) = (NotFoundError, deleteOTP e L)"
    using ec by (intro verifyOTP_not_found) simp_all
  then show ?thesis using ec after by simp
qed

theorem verifyOTP_not_idempotent_witness:
  "status (fst (verifyOTP demoEnv (Some ''user@test.com'') (Some ''123456'') 1000 demoLedger)) = 201
   \<and> otpStore (snd (verifyOTP demoEnv (Some ''user@test.com'') (Some ''123456'') 1000 demoLedger))
        (toLowerCase ''user@test.com'') = None
   \<and> fst (verifyOTP demoEnv (Some ''user@test.com'') (Some ''123456'') 2000
           (snd (verifyOTP demoEnv (Some ''user@test.com'') (Some ''123456'') 1000 demoLedger)))
       = NotFoundError"
proof -
  have ok: "status (fst (verifyOTP demoEnv (Some ''user@test.com'') (Some ''123456'') 1000 demoLedger)) = 201"
    by (simp add: verifyOTP_def demoLedger_def demoEnv_def toLowerCase_demo Let_def)
  show ?thesis
    using verifyOTP_not_idempotent[OF ok, of demoEnv 2000] ok by auto
qed

subsection \<open>Timers\<close>

lemma runTimeouts_fold:
  "foldl (\<lambda>m (due, k). if due \<le> now then m(k := None) else m) m ts k =
     (if \<exists>due. (due, k) \<in> set ts \<and> due \<le> now then None else m k)"
proof (induction ts arbitrary: m)
  case Nil
  show ?case by simp
next
  case (Cons t ts)
  obtain due k' where t: "t = (due, k')" by (cases t)
  show ?case unfolding t by (simp add: Cons.IH) (auto simp: fun_upd_def)
qed

lemma runTimeouts_store:
  "otpStore (runTimeouts now L) k =
     (if \<exists>due. (due, k) \<in> set (timeouts L) \<and> due \<le> now then None else otpStore L k)"
  by (simp add: runTimeouts_def runTimeouts_fold)

lemma runTimeouts_pending:
  "set (timeouts (runTimeouts now L)) = {(due, k). (due, k) \<in> set (timeouts L) \<and> now < due}"
  by (auto simp: runTimeouts_def)

lemma registerWithOTP_ok:
  assumes "status (fst (registerWithOTP E b x now L)) = 200"
  shows "\<exists>e p. email b = Some e \<and>
           snd (registerWithOTP E b x now L)
             = storeOTP (toLowerCase e) (generateOTP x) (prepareUserData E b e p) now L"
proof -
  obtain e p where parsed: "registerSchema_parse E b = Inr (e, p)"
    using assms
    by (cases "registerSchema_parse E b") (auto simp: registerWithOTP_def json_response_def)
  have em: "email b = Some e"
    using parsed by (auto simp: registerSchema_parse_def split: option.splits if_splits)
  have free: "getUserByEmail E (toLowerCase e) = Some False"
    using assms parsed
    by (cases "getUserByEmail E (toLowerCase e)")
       (auto simp: registerWithOTP_def json_response_def split: bool.splits)
  have "snd (registerWithOTP E b x now L)
          = storeOTP (toLowerCase e) (generateOTP x) (prepareUserData E b e p) now L"
    using parsed free by (simp add: registerWithOTP_def Let_def)
  with em show ?thesis by blast
qed

lemma storeOTP_store:
  "otpStore (storeOTP e code ud now L) (toLowerCase e) =
     Some \<lparr> otp = code, expires = now + 300000, userData = ud, attempts = 0 \<rparr>"
  by (simp add: storeOTP_def)

lemma storeOTP_timeouts:
  "timeouts (storeOTP e code ud now L) = timeouts L @ [(now + 600000, toLowerCase e)]"
  by (simp add: storeOTP_def)

text \<open>
  C7 as the code has it. With no pending record the reissue finds nothing. With one, the
  record gets the code drawn now, an expiry five minutes from now and a counter of zero;
  the payload and the pending eviction timers are kept as they were, so the eviction
  scheduled at creation still deletes the record when it is due. The previous code is
  then answered as a mismatch, unless the code drawn now is the same string.
\<close>

theorem resendOTP_resets_code_not_eviction:
  assumes "e \<noteq> []"
  shows "(otpStore L (toLowerCase e) = None \<longrightarrow> resendOTP (Some e) x now L = (NotFoundError, L))
       \<and> (\<forall>stored. otpStore L (toLowerCase e) = Some stored \<longrightarrow>
             status (fst (resendOTP (Some e) x now L)) = 200
           \<and> otpStore (snd (resendOTP (Some e) x now L)) (toLowerCase e)
               = Some (stored\<lparr> otp := generateOTP x, expires := now + 300000, attempts := 0 \<rparr>)
           \<and> timeouts (snd (resendOTP (Some e) x now L)) = timeouts L
           \<and> (\<forall>due. (due, toLowerCase e) \<in> set (timeouts L) \<longrightarrow>
                 otpStore (runTimeouts due (snd (resendOTP (Some e) x now L))) (toLowerCase e) = None)
           \<and> (\<forall>t. otp stored \<noteq> [] \<and> otp stored \<noteq> generateOTP x \<and> t \<le> now + 300000 \<longrightarrow>
                 fst (verifyOTP E (Some e) (Some (otp stored)) t (snd (resendOTP (Some e) x now L)))
                   = MismatchError 4))"
proof (intro conjI impI allI)
  assume "otpStore L (toLowerCase e) = None"
  then show "resendOTP (Some e) x now L = (NotFoundError, L)"
    using assms by (rule resendOTP_not_found)
next
  fix stored
  assume p: "otpStore L (toLowerCase e) = Some stored"
  let ?st = "stored\<lparr> otp := generateOTP x, expires := now + 300000, attempts := 0 \<rparr>"
  let ?L' = "L\<lparr> otpStore := (otpStore L)(toLowerCase e \<mapsto> ?st) \<rparr>"
  note r = resendOTP_pending[OF p assms, of x now]
  show "status (fst (resendOTP (Some e) x now L)) = 200"
    unfolding r by (simp add: json_response_def)
  show "otpStore (snd (resendOTP (Some e) x now L)) (toLowerCase e) = Some ?st"
    unfolding r by simp
  show "timeouts (snd (resendOTP (Some e) x now L)) = timeouts L"
    unfolding r by simp
  show "otpStore (runTimeouts due (snd (resendOTP (Some e) x now L))) (toLowerCase e) = None"
    if "(due, toLowerCase e) \<in> set (timeouts L)" for due
    unfolding r using that by (auto simp: runTimeouts_store)
  show "fst (verifyOTP E (Some e) (Some (otp stored)) t (snd (resendOTP (Some e) x now L))) = MismatchError 4"
    if "otp stored \<noteq> [] \<and> otp stored \<noteq> generateOTP x \<and> t \<le> now + 300000" for t
  proof -
    have p': "otpStore ?L' (toLowerCase e) = Some ?st" by simp
    have "verifyOTP E (Some e) (Some (otp stored)) t ?L' =
           (MismatchError (5 - int (attempts ?st + 1)),
            ?L'\<lparr> otpStore := (otpStore ?L')(toLowerCase e \<mapsto> ?st\<lparr> attempts := attempts ?st + 1 \<rparr>) \<rparr>)"
      using that assms by (intro verifyOTP_mismatch_step[OF p']) simp_all
    then show ?thesis unfolding r by simp
  qed
qed

text \<open>
  The previous code can stay valid: the record holds \<open>100000\<close>, the reissue draws
  \<open>100000\<close> again, and a confirmation with the old code creates the account.
\<close>

theorem resendOTP_old_code_still_valid:
  "otpStore repeatLedger (toLowerCase ''user@test.com'')
     = Some \<lparr> otp = ''100000'', expires = 300000, userData = [], attempts = 3 \<rparr>
   \<and> status (fst (resendOTP (Some ''user@test.com'') 0 1000 repeatLedger)) = 200
   \<and> status (fst (verifyOTP demoEnv (Some ''user@test.com'') (Some ''100000'') 2000
                (snd (resendOTP (Some ''user@test.com'') 0 1000 repeatLedger)))) = 201"
  by (simp add: repeatLedger_def resendOTP_def verifyOTP_def demoEnv_def toLowerCase_demo
        generateOTP_demo json_response_def Let_def)

theorem resendOTP_resets_code_not_eviction_witness:
  "resendOTP (Some ''nobody@test.com'') 0 1000 emptyLedger = (NotFoundError, emptyLedger)
   \<and> otpStore demoLedger (toLowerCase ''user@test.com'')
       = Some \<lparr> otp = ''123456'', expires = 300000, userData = [], attempts = 0 \<rparr>
   \<and> otpStore (snd (resendOTP (Some ''user@test.com'') 0 1000 demoLedger)) (toLowerCase ''user@test.com'')
       = Some \<lparr> otp = ''100000'', expires = 301000, userData = [], attempts = 0 \<rparr>
   \<and> timeouts (snd (resendOTP (Some ''user@test.com'') 0 1000 demoLedger)) = [(600000, ''user@test.com'')]
   \<and> otpStore (runTimeouts 600000 (snd (resendOTP (Some ''user@test.com'') 0 1000 demoLedger)))
        (toLowerCase ''user@test.com'') = None
   \<and> fst (verifyOTP demoEnv (Some ''user@test.com'') (Some ''123456'') 2000
           (snd (resendOTP (Some ''user@test.com'') 0 1000 demoLedger))) = MismatchError 4"
proof -
  have none: "otpStore emptyLedger (toLowerCase ''nobody@test.com'') = None"
    by (simp add: emptyLedger_def)
  have p: "otpStore demoLedger (toLowerCase ''user@test.com'')
       = Some \<lparr> otp = ''123456'', expires = 300000, userData = [], attempts = 0 \<rparr>"
    by (simp add: demoLedger_def toLowerCase_demo)
  have t: "(600000, toLowerCase ''user@test.com'') \<in> set (timeouts demoLedger)"
    by (simp add: demoLedger_def toLowerCase_demo)
  have ne: "''nobody@test.com'' \<noteq> []" "''user@test.com'' \<noteq> []" by simp_all
  from resendOTP_resets_code_not_eviction[OF ne(1), of emptyLedger 0 1000 demoEnv] none
  have a: "resendOTP (Some ''nobody@test.com'') 0 1000 emptyLedger = (NotFoundError, emptyLedger)"
    by blast
  from resendOTP_resets_code_not_eviction[OF ne(2), of demoLedger 0 1000 demoEnv] p
  have b: "otpStore (snd (resendOTP (Some ''user@test.com'') 0 1000 demoLedger)) (toLowerCase ''user@test.com'')
             = Some (\<lparr> otp = ''123456'', expires = 300000, userData = [], attempts = 0 \<rparr>
                      \<lparr> otp := generateOTP 0, expires := 1000 + 300000, attempts := 0 \<rparr>)"
    and c: "timeouts (snd (resendOTP (Some ''user@test.com'') 0 1000 demoLedger)) = timeouts demoLedger"
    and d: "\<forall>due. (due, toLowerCase ''user@test.com'') \<in> set (timeouts demoLedger) \<longrightarrow>
              otpStore (runTimeouts due (snd (resendOTP (Some ''user@test.com'') 0 1000 demoLedger)))
                (toLowerCase ''user@test.com'') = None"
    and f: "\<forall>t. otp \<lparr> otp = ''123456'', expires = 300000, userData = [], attempts = 0 \<rparr> \<noteq> []
              \<and> otp \<lparr> otp = ''123456'', expires = 300000, userData = [], attempts = 0 \<rparr> \<noteq> generateOTP 0
              \<and> t \<le> 1000 + 300000 \<longrightarrow>
              fst (verifyOTP demoEnv (Some ''user@test.com'')
                     (Some (otp \<lparr> otp = ''123456'', expires = 300000, userData = [], attempts = 0 \<rparr>)) t
                     (snd (resendOTP (Some ''user@test.com'') 0 1000 demoLedger))) = MismatchError 4"
    by blast+
  from d t have d': "otpStore (runTimeouts 600000 (snd (resendOTP (Some ''user@test.com'') 0 1000 demoLedger)))
        (toLowerCase ''user@test.com'') = None" by blast
  from f have f': "fst (verifyOTP demoEnv (Some ''user@test.com'') (Some ''123456'') 2000
           (snd (resendOTP (Some ''user@test.com'') 0 1000 demoLedger))) = MismatchError 4"
    by (simp add: generateOTP_demo)
  show ?thesis using a p b c d' f' by (simp add: generateOTP_demo demoLedger_def)
qed

text \<open>
  C8. The response of an issuance and of a reissuance is the same whatever code is drawn:
  the code goes into the store only.
\<close>

theorem responses_independent_of_code:
  "fst (registerWithOTP E b x1 now L) = fst (registerWithOTP E b x2 now L)
   \<and> fst (resendOTP em x1 now L) = fst (resendOTP em x2 now L)"
proof
  show "fst (registerWithOTP E b x1 now L) = fst (registerWithOTP E b x2 now L)"
  proof (cases "registerSchema_parse E b")
    case (Inl msg)
    then show ?thesis by (simp add: registerWithOTP_def)
  next
    case (Inr ep)
    obtain e p where ep: "ep = (e, p)" by (cases ep)
    show ?thesis
    proof (cases "getUserByEmail E (toLowerCase e)")
      case None
      with Inr ep show ?thesis by (simp add: registerWithOTP_def)
    next
      case (Some taken)
      with Inr ep show ?thesis by (cases taken) (simp_all add: registerWithOTP_def Let_def)
    qed
  qed
  show "fst (resendOTP em x1 now L) = fst (resendOTP em x2 now L)"
  proof (cases em)
    case None
    then show ?thesis by (simp add: resendOTP_def)
  next
    case (Some e)
    then show ?thesis
      by (cases "otpStore L (toLowerCase e)") (simp_all add: resendOTP_def)
  qed
qed

text \<open>
  C10. Two issuances for the same lower-cased email, the second before the first one's
  eviction is due: the store holds the second record under the key and nothing else for
  it, both eviction timers are pending, and when the first comes due, ten minutes after
  the first issuance and so less than ten minutes after the second, it deletes the
  second record; the second timer is still pending then.
\<close>

theorem second_issuance_evicted_by_first_timer:
  assumes "status (fst (registerWithOTP E1 b1 x1 t1 L0)) = 200"
    and "L1 = snd (registerWithOTP E1 b1 x1 t1 L0)"
    and "status (fst (registerWithOTP E2 b2 x2 t2 L1)) = 200"
    and "L2 = snd (registerWithOTP E2 b2 x2 t2 L1)"
    and "email b1 = Some e1" and "email b2 = Some e2"
    and "toLowerCase e1 = toLowerCase e2"
    and "t1 < t2" and "t2 \<le> t1 + 600000"
  shows "(\<exists>ud. otpStore L2 (toLowerCase e2)
                = Some \<lparr> otp = generateOTP x2, expires = t2 + 300000, userData = ud, attempts = 0 \<rparr>)
       \<and> (t1 + 600000, toLowerCase e2) \<in> set (timeouts L2)
       \<and> (t2 + 600000, toLowerCase e2) \<in> set (timeouts L2)
       \<and> t1 + 600000 < t2 + 600000
       \<and> otpStore (runTimeouts (t1 + 600000) L2) (toLowerCase e2) = None
       \<and> (t2 + 600000, toLowerCase e2) \<in> set (timeouts (runTimeouts (t1 + 600000) L2))"
proof -
  from registerWithOTP_ok[OF assms(1)] assms(2,5) obtain p1 where
    s1: "L1 = storeOTP (toLowerCase e1) (generateOTP x1) (prepareUserData E1 b1 e1 p1) t1 L0"
    by auto
  from registerWithOTP_ok[OF assms(3)] assms(4,6) obtain p2 where
    s2: "L2 = storeOTP (toLowerCase e2) (generateOTP x2) (prepareUserData E2 b2 e2 p2) t2 L1"
    by auto
  have stored: "otpStore L2 (toLowerCase e2)
      = Some \<lparr> otp = generateOTP x2, expires = t2 + 300000,
               userData = prepareUserData E2 b2 e2 p2, attempts = 0 \<rparr>"
    unfolding s2 using storeOTP_store[of "toLowerCase e2"] by (simp add: toLowerCase_idem)
  have timers: "timeouts L2 = timeouts L0 @ [(t1 + 600000, toLowerCase e2), (t2 + 600000, toLowerCase e2)]"
    unfolding s2 s1 by (simp add: storeOTP_timeouts toLowerCase_idem assms(7))
  have first: "(t1 + 600000, toLowerCase e2) \<in> set (timeouts L2)"
    and second: "(t2 + 600000, toLowerCase e2) \<in> set (timeouts L2)"
    unfolding timers by simp_all
  have gone: "otpStore (runTimeouts (t1 + 600000) L2) (toLowerCase e2) = None"
    using first by (auto simp: runTimeouts_store)
  have later: "(t2 + 600000, toLowerCase e2) \<in> set (timeouts (runTimeouts (t1 + 600000) L2))"
    using second assms(8) by (simp add: runTimeouts_pending)
  show ?thesis using stored first second gone later assms(8) by simp
qed

theorem second_issuance_evicted_by_first_timer_witness:
  "status (fst (registerWithOTP demoEnv demoBody 23456 0 emptyLedger)) = 200
   \<and> status (fst (registerWithOTP demoEnv demoBody 0 540000
                (snd (registerWithOTP demoEnv demoBody 23456 0 emptyLedger)))) = 200
   \<and> (\<exists>ud. otpStore (snd (registerWithOTP demoEnv demoBody 0 540000
                (snd (registerWithOTP demoEnv demoBody 23456 0 emptyLedger)))) ''user@test.com''
          = Some \<lparr> otp = ''100000'', expires = 840000, userData = ud, attempts = 0 \<rparr>)
   \<and> otpStore (runTimeouts 600000 (snd (registerWithOTP demoEnv demoBody 0 540000
                (snd (registerWithOTP demoEnv demoBody 23456 0 emptyLedger))))) ''user@test.com'' = None
   \<and> (1140000, ''user@test.com'') \<in> set (timeouts (runTimeouts 600000
          (snd (registerWithOTP demoEnv demoBody 0 540000
                (snd (registerWithOTP demoEnv demoBody 23456 0 emptyLedger))))))"
proof -
  let ?L1 = "snd (registerWithOTP demoEnv demoBody 23456 0 emptyLedger)"
  let ?L2 = "snd (registerWithOTP demoEnv demoBody 0 540000 ?L1)"
  have parse: "registerSchema_parse demoEnv demoBody = Inr (''User@Test.com'', ''correct horse'')"
    by (simp add: registerSchema_parse_def demoEnv_def demoBody_def)
  have free: "getUserByEmail demoEnv k = Some False" for k
    by (simp add: demoEnv_def)
  have ok1: "status (fst (registerWithOTP demoEnv demoBody 23456 0 emptyLedger)) = 200"
    by (simp add: registerWithOTP_def parse free Let_def json_response_def)
  have ok2: "status (fst (registerWithOTP demoEnv demoBody 0 540000 ?L1)) = 200"
    by (simp add: registerWithOTP_def parse free Let_def json_response_def)
  have em: "email demoBody = Some ''User@Test.com''" by (simp add: demoBody_def)
  have t: "(0::nat) < 540000" "(540000::nat) \<le> 0 + 600000" by simp_all
  show ?thesis
    using second_issuance_evicted_by_first_timer[OF ok1 refl ok2 refl em em refl t] ok1 ok2
    by (simp add: toLowerCase_demo generateOTP_demo)
qed

section \<open>Properties of the Session Reconciler\<close>

subsection \<open>Objects\<close>

lemma map_of_overwrite:
  "map_of (map (\<lambda>(k', v'). if k' = k then (k', v) else (k', v')) ob) j =
     (if j = k \<and> k \<in> fst ` set ob then Some v else map_of ob j)"
proof (induction ob)
  case Nil
  show ?case by simp
next
  case (Cons x ob)
  obtain a b where x: "x = (a, b)" by (cases x)
  show ?case unfolding x using Cons.IH by (cases "j = k") simp_all
qed

lemma map_of_setProp: "map_of (setProp k v ob) j = (if j = k then Some v else map_of ob j)"
proof (cases "hasProp ob k")
  case True
  then show ?thesis by (simp add: setProp_def map_of_overwrite hasProp_def)
next
  case False
  then have "map_of ob k = None" by (simp add: hasProp_def map_of_eq_None_iff)
  with False show ?thesis
    by (auto simp: setProp_def map_add_def split: option.splits)
qed

lemma getProp_setProp: "getProp (setProp k v ob) j = (if j = k then v else getProp ob j)"
  by (simp add: getProp_def map_of_setProp)

lemma setProp_keys: "fst ` set (setProp k v ob) = insert k (fst ` set ob)"
  by (auto simp: setProp_def hasProp_def image_iff split: if_splits prod.splits) force+

lemma setProp_entries:
  "(j, w) \<in> set (setProp k v ob) \<Longrightarrow> (if j = k then w = v else (j, w) \<in> set ob)"
proof (cases "hasProp ob k")
  case True
  assume "(j, w) \<in> set (setProp k v ob)"
  with True show ?thesis by (auto simp: setProp_def split: if_splits)
next
  case False
  assume "(j, w) \<in> set (setProp k v ob)"
  with False show ?thesis by (force simp: setProp_def hasProp_def)
qed

lemma spread_Nil [simp]: "spread a [] = a"
  by (simp add: spread_def)

lemma spread_Cons [simp]: "spread a ((k, v) # b) = spread (setProp k v a) b"
  by (simp add: spread_def)

lemma getProp_spread_other: "j \<notin> fst ` set b \<Longrightarrow> getProp (spread a b) j = getProp a j"
proof (induction b arbitrary: a)
  case Nil
  show ?case by simp
next
  case (Cons x b)
  obtain k v where x: "x = (k, v)" by (cases x)
  from Cons.prems x have "j \<noteq> k" "j \<notin> fst ` set b" by auto
  then show ?case unfolding x by (simp add: Cons.IH getProp_setProp)
qed

lemma getProp_spread_forced:
  assumes "j \<in> fst ` set b" and "\<forall>w. (j, w) \<in> set b \<longrightarrow> w = v"
  shows "getProp (spread a b) j = v"
  using assms
proof (induction b arbitrary: a)
  case Nil
  then show ?case by simp
next
  case (Cons x b)
  obtain k w where x: "x = (k, w)" by (cases x)
  show ?case
  proof (cases "j \<in> fst ` set b")
    case True
    then show ?thesis unfolding x using Cons.prems(2) by (simp add: Cons.IH)
  next
    case False
    with Cons.prems x have "k = j" "w = v" by auto
    with False show ?thesis unfolding x by (simp add: getProp_spread_other getProp_setProp)
  qed
qed

subsection \<open>\<open>parseInt\<close> reads back what \<open>toString\<close> wrote\<close>

lemma digitChar_facts:
  assumes "d < 10"
  shows "isDigit 10 (digitChar d)" and "digitVal (digitChar d) = d"
  using assms by (simp_all add: isDigit_def digitVal_def of_char_digitChar)

lemma isDigit10_not_special:
  assumes "isDigit 10 c"
  shows "\<not> isSpace c" "c \<noteq> CHR ''-''" "c \<noteq> CHR ''+''" "c \<noteq> CHR ''x''" "c \<noteq> CHR ''X''"
  using assms by (auto simp: isDigit_def isSpace_def)

lemma natToString_digits: "c \<in> set (natToString n) \<Longrightarrow> isDigit 10 c"
proof (induction n rule: natToString.induct)
  case (1 n)
  show ?case
  proof (cases "n < 10")
    case True
    with 1(2) show ?thesis by (simp add: natToString.simps[of n] digitChar_facts)
  next
    case False
    with 1 show ?thesis by (auto simp: natToString.simps[of n] digitChar_facts)
  qed
qed

lemma natToString_value: "foldl (\<lambda>acc c. acc * 10 + digitVal c) 0 (natToString n) = n"
proof (induction n rule: natToString.induct)
  case (1 n)
  show ?case
  proof (cases "n < 10")
    case True
    then show ?thesis by (simp add: natToString.simps[of n] digitChar_facts)
  next
    case False
    with 1 show ?thesis by (simp add: natToString.simps[of n] digitChar_facts)
  qed
qed

lemma parseInt_decimal:
  assumes "s \<noteq> []" and "\<forall>c \<in> set s. isDigit 10 c"
  shows "parseInt s = Some (int (foldl (\<lambda>acc c. acc * 10 + digitVal c) 0 s))"
proof -
  obtain a r where s: "s = a # r" using assms(1) by (cases s) auto
  have a: "isDigit 10 a" using assms(2) s by simp
  note na = isDigit10_not_special[OF a]
  have drop: "dropWhile isSpace s = s" using na s by simp
  have nohex: "(case s of a # b # r \<Rightarrow> a = CHR ''0'' \<and> (b = CHR ''x'' \<or> b = CHR ''X'') | _ \<Rightarrow> False) = False"
  proof (cases r)
    case Nil
    with s show ?thesis by simp
  next
    case (Cons b r')
    then have "isDigit 10 b" using assms(2) s by simp
    from isDigit10_not_special[OF this] Cons s show ?thesis by simp
  qed
  have take: "takeWhile (isDigit 10) s = s" using assms(2) by simp
  have hd: "hd s \<noteq> CHR ''-''" "hd s \<noteq> CHR ''+''" using na s by simp_all
  have "parseInt s =
      (if takeWhile (isDigit 10) s = [] then None
       else Some (int (foldl (\<lambda>acc c. acc * 10 + digitVal c) 0 (takeWhile (isDigit 10) s))))"
    unfolding parseInt_def drop Let_def using hd nohex assms(1) by simp
  then show ?thesis unfolding take using assms(1) by simp
qed

lemma parseInt_toString: "parseInt (toString (int n)) = Some (int n)"
proof -
  have "parseInt (natToString n) = Some (int (foldl (\<lambda>acc c. acc * 10 + digitVal c) 0 (natToString n)))"
    by (rule parseInt_decimal) (simp_all add: natToString_nonempty natToString_digits)
  then show ?thesis by (simp add: toString_def natToString_value)
qed

lemma toString_nonempty: "toString i \<noteq> []"
  by (simp add: toString_def natToString_nonempty)

lemma recentLogout_after_write:
  "recentLogout now (Some (toString (int t0))) = (int now - int t0 < 120000)"
  by (simp add: recentLogout_def parseInt_toString toString_nonempty)

subsection \<open>What \<open>notifyListeners\<close> leaves alone\<close>

lemma notifyListeners_frame [simp]:
  "authState (notifyListeners m) = authState m"
  "user (notifyListeners m) = user m"
  "listeners (notifyListeners m) = listeners m"
  "unsubscribeAuth (notifyListeners m) = unsubscribeAuth m"
  "isLoggedOut (notifyListeners m) = isLoggedOut m"
  "pendingCouponCode (notifyListeners m) = pendingCouponCode m"
  "localStorage (notifyListeners m) = localStorage m"
  "idpSignOuts (notifyListeners m) = idpSignOuts m"
  "idpSubscriptions (notifyListeners m) = idpSubscriptions m"
  "syncRequests (notifyListeners m) = syncRequests m"
  "tierValidations (notifyListeners m) = tierValidations m"
  "reloadScheduled (notifyListeners m) = reloadScheduled m"
  by (simp_all add: notifyListeners_def Let_def)

lemma notifyListeners_notified:
  "\<exists>new. notified (notifyListeners m) = notified m @ new
         \<and> (\<forall>(l, st, u) \<in> set new. st = authState m \<and> u = user m)"
proof (cases "notified (notifyListeners m) = notified m")
  case True
  then show ?thesis by (intro exI[of _ "[]"]) simp
next
  case False
  then have "notified (notifyListeners m) = notified m @ map (\<lambda>l. (l, authState m, user m)) (listeners m)"
    by (simp add: notifyListeners_def Let_def split: if_splits)
  then show ?thesis by (intro exI[of _ "map (\<lambda>l. (l, authState m, user m)) (listeners m)"]) auto
qed

lemma demoManager_fields:
  "authState demoManager = authenticated"
  "user demoManager =
     Some [(''id'', JNum 7), (''email'', JStr ''ada@test.com''), (''displayName'', JStr ''ada''),
           (''provider'', JStr ''password''), (''tier'', JStr ''free''), (''usedPages'', JNum 2),
           (''totalPages'', JNum 10), (''maxShotsPerScene'', JNum 5),
           (''canGenerateStoryboards'', JBool False)]"
  "tierValidations demoManager = [3000]"
  "isLoggedOut demoManager = False"
  "localStorage demoManager = Map.empty"
  by (simp_all add: demoManager_def authListener_def onAuthStateChange_def newManager_def initialize_def
        subscribeAuth_def recentLogout_def createBackendSession_def demoBackendUser_def backendUser_def
        propsOf_def getProp_def emailLocalPart_def scheduleAutomaticTierValidation_def)

subsection \<open>Logout and the notifications that follow it\<close>

lemma logout_begin_fields:
  "authState (logout_begin t0 m) = disabled"
  "user (logout_begin t0 m) = None"
  "isLoggedOut (logout_begin t0 m) = True"
  "localStorage (logout_begin t0 m) =
     (localStorage m)(''auth_disabled'' \<mapsto> ''true'', ''logout_timestamp'' \<mapsto> toString (int t0))"
  by (simp_all add: logout_begin_def Let_def)

lemma lockActive_logout_begin: "lockActive t (logout_begin t0 m) = (t < t0 + 120000)"
  by (auto simp: lockActive_def logout_begin_fields recentLogout_after_write)

lemma lockActive_blocks:
  "lockActive t m \<Longrightarrow> localStorage m ''auth_disabled'' = Some ''true''"
  by (simp add: lockActive_def)

lemma authListener_blocked:
  assumes "authState m = disabled \<or> isLoggedOut m
         \<or> recentLogout t (localStorage m ''logout_timestamp'')
         \<or> localStorage m ''auth_disabled'' = Some ''true''"
  shows "authListener (Some fu) ex t m =
           notifyListeners ((forceSignOut m)\<lparr> authState := disabled, user := None \<rparr>)"
  using assms by (simp add: authListener_def)

text \<open>
  C1. The part of \<open>logout\<close> that runs before its first \<open>await\<close> leaves the state
  \<open>disabled\<close>, the user cleared, and the lock in \<open>localStorage\<close>: the flag and the time
  of the logout, active for exactly the 120000 ms that follow. A sign-in notification that
  arrives while the state is \<open>disabled\<close>, or while the lock is active, signs the identity
  provider out, makes no exchange with the backend, leaves the state \<open>disabled\<close> with no
  user, and whatever it sends to listeners is \<open>disabled\<close> with no user.
\<close>

theorem logout_lock_rejects_sign_in:
  "authState (logout_begin t0 m) = disabled
   \<and> user (logout_begin t0 m) = None
   \<and> localStorage (logout_begin t0 m) ''auth_disabled'' = Some ''true''
   \<and> localStorage (logout_begin t0 m) ''logout_timestamp'' = Some (toString (int t0))
   \<and> (\<forall>t. lockActive t (logout_begin t0 m) = (t < t0 + 120000))
   \<and> (authState m' = disabled \<or> lockActive t m' \<longrightarrow>
         authState (authListener (Some fu) ex t m') = disabled
       \<and> user (authListener (Some fu) ex t m') = None
       \<and> idpSignOuts (authListener (Some fu) ex t m') = idpSignOuts m' + 1
       \<and> syncRequests (authListener (Some fu) ex t m') = syncRequests m'
       \<and> (\<exists>new. notified (authListener (Some fu) ex t m') = notified m' @ new
                \<and> (\<forall>(l, st, u) \<in> set new. st = disabled \<and> u = None)))"
proof (intro conjI impI allI)
  show "authState (logout_begin t0 m) = disabled" "user (logout_begin t0 m) = None"
    by (simp_all add: logout_begin_fields)
  show "localStorage (logout_begin t0 m) ''auth_disabled'' = Some ''true''"
    "localStorage (logout_begin t0 m) ''logout_timestamp'' = Some (toString (int t0))"
    by (simp_all add: logout_begin_fields)
  show "lockActive t (logout_begin t0 m) = (t < t0 + 120000)" for t
    by (rule lockActive_logout_begin)
next
  assume "authState m' = disabled \<or> lockActive t m'"
  then have blocked: "authState m' = disabled \<or> isLoggedOut m'
         \<or> recentLogout t (localStorage m' ''logout_timestamp'')
         \<or> localStorage m' ''auth_disabled'' = Some ''true''"
    using lockActive_blocks by blast
  let ?x = "(forceSignOut m')\<lparr> authState := disabled, user := None \<rparr>"
  note r = authListener_blocked[OF blocked, of fu ex]
  show "authState (authListener (Some fu) ex t m') = disabled"
    "user (authListener (Some fu) ex t m') = None"
    "idpSignOuts (authListener (Some fu) ex t m') = idpSignOuts m' + 1"
    "syncRequests (authListener (Some fu) ex t m') = syncRequests m'"
    unfolding r by (simp_all add: forceSignOut_def)
  from notifyListeners_notified[of ?x]
  show "\<exists>new. notified (authListener (Some fu) ex t m') = notified m' @ new
                \<and> (\<forall>(l, st, u) \<in> set new. st = disabled \<and> u = None)"
    unfolding r by (simp add: forceSignOut_def)
qed

theorem logout_lock_rejects_sign_in_witness:
  "authState demoManager = authenticated
   \<and> authState (logout_begin 5000 demoManager) = disabled
   \<and> lockActive 6000 (logout_begin 5000 demoManager)
   \<and> authState (authListener (Some demoFirebaseUser) (Ok demoBackendUser) 6000
                  (logout_begin 5000 demoManager)) = disabled
   \<and> user (authListener (Some demoFirebaseUser) (Ok demoBackendUser) 6000
             (logout_begin 5000 demoManager)) = None
   \<and> idpSignOuts (authListener (Some demoFirebaseUser) (Ok demoBackendUser) 6000
                    (logout_begin 5000 demoManager))
       = idpSignOuts (logout_begin 5000 demoManager) + 1
   \<and> syncRequests (authListener (Some demoFirebaseUser) (Ok demoBackendUser) 6000
                     (logout_begin 5000 demoManager))
       = syncRequests (logout_begin 5000 demoManager)"
  using logout_lock_rejects_sign_in[of 5000 demoManager "logout_begin 5000 demoManager" 6000
          demoFirebaseUser "Ok demoBackendUser"]
  by (simp add: demoManager_fields)

subsection \<open>The premium demo account\<close>

lemma forcedProps:
  fixes ob :: obj
  defines "ud \<equiv> spread ob
             [(''tier'', JStr ''pro''), (''totalPages'', JNum (- 1)),
              (''maxShotsPerScene'', JNum (- 1)), (''canGenerateStoryboards'', JBool True)]"
  shows "getProp (spread u ud) ''tier'' = JStr ''pro''"
    and "getProp (spread u ud) ''totalPages'' = JNum (- 1)"
    and "getProp (spread u ud) ''maxShotsPerScene'' = JNum (- 1)"
    and "getProp (spread u ud) ''canGenerateStoryboards'' = JBool True"
proof -
  have ud: "ud = setProp ''canGenerateStoryboards'' (JBool True)
                  (setProp ''maxShotsPerScene'' (JNum (- 1))
                    (setProp ''totalPages'' (JNum (- 1))
                      (setProp ''tier'' (JStr ''pro'') ob)))"
    by (simp add: ud_def)
  have keys: "''tier'' \<in> fst ` set ud" "''totalPages'' \<in> fst ` set ud"
    "''maxShotsPerScene'' \<in> fst ` set ud" "''canGenerateStoryboards'' \<in> fst ` set ud"
    unfolding ud by (simp_all add: setProp_keys)
  have "w = JStr ''pro''" if "(''tier'', w) \<in> set ud" for w
    using that unfolding ud by (auto dest!: setProp_entries)
  from getProp_spread_forced[OF keys(1), of "JStr ''pro''" u] this
  show "getProp (spread u ud) ''tier'' = JStr ''pro''" by blast
  have "w = JNum (- 1)" if "(''totalPages'', w) \<in> set ud" for w
    using that unfolding ud by (auto dest!: setProp_entries)
  from getProp_spread_forced[OF keys(2), of "JNum (- 1)" u] this
  show "getProp (spread u ud) ''totalPages'' = JNum (- 1)" by blast
  have "w = JNum (- 1)" if "(''maxShotsPerScene'', w) \<in> set ud" for w
    using that unfolding ud by (auto dest!: setProp_entries)
  from getProp_spread_forced[OF keys(3), of "JNum (- 1)" u] this
  show "getProp (spread u ud) ''maxShotsPerScene'' = JNum (- 1)" by blast
  have "w = JBool True" if "(''canGenerateStoryboards'', w) \<in> set ud" for w
    using that unfolding ud by (auto dest!: setProp_entries)
  from getProp_spread_forced[OF keys(4), of "JBool True" u] this
  show "getProp (spread u ud) ''canGenerateStoryboards'' = JBool True" by blast
qed

lemma premiumManager_user:
  "user premiumManager =
     Some [(''id'', JNum 1), (''email'', JStr ''premium@demo.com''), (''displayName'', JStr ''Premium Demo''),
           (''provider'', JStr ''password''), (''tier'', JStr ''pro''), (''usedPages'', JNum 0),
           (''totalPages'', JNum (- 1)), (''maxShotsPerScene'', JNum (- 1)),
           (''canGenerateStoryboards'', JBool True)]"
  by (simp add: premiumManager_def authListener_def onAuthStateChange_def newManager_def initialize_def
        subscribeAuth_def recentLogout_def createBackendSession_def premiumBackendUser_def backendUser_def
        propsOf_def getProp_def emailLocalPart_def scheduleAutomaticTierValidation_def)

text \<open>
  C9. While the cached user's email is \<open>premium@demo.com\<close>, whatever data
  \<open>updateUserData\<close> is given, directly or from \<open>refreshFromDatabase\<close>, the user it leaves
  has tier \<open>pro\<close>, \<open>totalPages\<close> and \<open>maxShotsPerScene\<close> of -1 and
  \<open>canGenerateStoryboards\<close> true.
\<close>

theorem updateUserData_premium_demo_forced:
  assumes "user m = Some u" and "getProp u ''email'' = JStr ''premium@demo.com''"
  shows "(\<exists>u'. user (updateUserData fetched m) = Some u'
             \<and> getProp u' ''tier'' = JStr ''pro''
             \<and> getProp u' ''totalPages'' = JNum (- 1)
             \<and> getProp u' ''maxShotsPerScene'' = JNum (- 1)
             \<and> getProp u' ''canGenerateStoryboards'' = JBool True)
       \<and> refreshFromDatabase (Ok fetched) m = updateUserData fetched m"
proof -
  let ?ud = "spread (objOf fetched)
               [(''tier'', JStr ''pro''), (''totalPages'', JNum (- 1)),
                (''maxShotsPerScene'', JNum (- 1)), (''canGenerateStoryboards'', JBool True)]"
  have "user (updateUserData fetched m) = Some (spread u ?ud)"
    using assms by (simp add: updateUserData_def Let_def)
  moreover note forcedProps[of u "objOf fetched"]
  moreover have "refreshFromDatabase (Ok fetched) m = updateUserData fetched m"
    by (simp add: refreshFromDatabase_def)
  ultimately show ?thesis by simp
qed

theorem updateUserData_premium_demo_forced_witness:
  "getProp (the (user premiumManager)) ''email'' = JStr ''premium@demo.com''
   \<and> getProp (objOf freeTierData) ''tier'' = JStr ''free''
   \<and> (\<exists>u'. user (updateUserData freeTierData premiumManager) = Some u'
           \<and> getProp u' ''tier'' = JStr ''pro''
           \<and> getProp u' ''totalPages'' = JNum (- 1)
           \<and> getProp u' ''maxShotsPerScene'' = JNum (- 1)
           \<and> getProp u' ''canGenerateStoryboards'' = JBool True)"
proof -
  have e: "getProp [(''id'', JNum 1), (''email'', JStr ''premium@demo.com''), (''displayName'', JStr ''Premium Demo''),
           (''provider'', JStr ''password''), (''tier'', JStr ''pro''), (''usedPages'', JNum 0),
           (''totalPages'', JNum (- 1)), (''maxShotsPerScene'', JNum (- 1)),
           (''canGenerateStoryboards'', JBool True)] ''email'' = JStr ''premium@demo.com''"
    by (simp add: getProp_def)
  have f: "getProp (objOf freeTierData) ''tier'' = JStr ''free''"
    by (simp add: freeTierData_def objOf_def getProp_def)
  show ?thesis
    using updateUserData_premium_demo_forced[OF premiumManager_user e, of freeTierData] e f
    by (simp add: premiumManager_user)
qed

subsection \<open>Tier validation\<close>

lemma demoManager_listeners:
  "listeners demoManager = [0]"
  "lastNotifiedState demoManager =
     Some (authenticated,
           Some [(''id'', JNum 7), (''email'', JStr ''ada@test.com''), (''displayName'', JStr ''ada''),
                 (''provider'', JStr ''password''), (''tier'', JStr ''free''), (''usedPages'', JNum 2),
                 (''totalPages'', JNum 10), (''maxShotsPerScene'', JNum 5),
                 (''canGenerateStoryboards'', JBool False)])"
  "length (notified demoManager) = 2"
  by (simp_all add: demoManager_def authListener_def onAuthStateChange_def newManager_def initialize_def
        subscribeAuth_def recentLogout_def createBackendSession_def demoBackendUser_def backendUser_def
        propsOf_def getProp_def emailLocalPart_def scheduleAutomaticTierValidation_def
        notifyListeners_def)

lemma createBackendSession_schedules:
  assumes "backendUser fetched = Some u"
  shows "tierValidations (createBackendSession (Ok fetched) now m) = tierValidations m @ [now + 2000]"
    and "authState (createBackendSession (Ok fetched) now m) = authenticated"
    and "user (createBackendSession (Ok fetched) now m) = Some u"
  using assms by (simp_all add: createBackendSession_def scheduleAutomaticTierValidation_def)

lemma validateAndUpdateTier_no_difference:
  assumes "user m = Some u" and "propsOf result = Some r" and "propsOf (getProp r ''user'') = Some fresh"
    and "\<not> strictNeq (getProp fresh ''tier'') (getProp u ''tier'')"
    and "\<not> strictNeq (getProp fresh ''canGenerateStoryboards'') (getProp u ''canGenerateStoryboards'')"
    and "\<not> strictNeq (getProp fresh ''maxShotsPerScene'') (getProp u ''maxShotsPerScene'')"
  shows "validateAndUpdateTier (Ok result) m = m"
  using assms by (simp add: validateAndUpdateTier_def)

lemma validateAndUpdateTier_difference:
  assumes "user m = Some u" and "propsOf result = Some r" and "propsOf (getProp r ''user'') = Some fresh"
    and "strictNeq (getProp fresh ''tier'') (getProp u ''tier'')
       \<or> strictNeq (getProp fresh ''canGenerateStoryboards'') (getProp u ''canGenerateStoryboards'')
       \<or> strictNeq (getProp fresh ''maxShotsPerScene'') (getProp u ''maxShotsPerScene'')"
  shows "\<exists>u'. user (validateAndUpdateTier (Ok result) m) = Some u'
            \<and> getProp u' ''tier'' = getProp fresh ''tier''
            \<and> getProp u' ''totalPages'' = getProp fresh ''totalPages''
            \<and> getProp u' ''maxShotsPerScene'' = getProp fresh ''maxShotsPerScene''
            \<and> getProp u' ''canGenerateStoryboards'' = getProp fresh ''canGenerateStoryboards''
            \<and> (\<forall>k. k \<notin> {''tier'', ''totalPages'', ''maxShotsPerScene'', ''canGenerateStoryboards''}
                   \<longrightarrow> getProp u' k = getProp u k)"
proof -
  let ?u' = "spread u
               [(''tier'', getProp fresh ''tier''),
                (''totalPages'', getProp fresh ''totalPages''),
                (''maxShotsPerScene'', getProp fresh ''maxShotsPerScene''),
                (''canGenerateStoryboards'', getProp fresh ''canGenerateStoryboards'')]"
  have "user (validateAndUpdateTier (Ok result) m) = Some ?u'"
    using assms by (auto simp: validateAndUpdateTier_def)
  moreover have "getProp ?u' k =
      (if k = ''canGenerateStoryboards'' then getProp fresh ''canGenerateStoryboards''
       else if k = ''maxShotsPerScene'' then getProp fresh ''maxShotsPerScene''
       else if k = ''totalPages'' then getProp fresh ''totalPages''
       else if k = ''tier'' then getProp fresh ''tier''
       else getProp u k)" for k
    by (simp add: getProp_setProp)
  ultimately show ?thesis by simp
qed

text \<open>
  C4 on the code. The cached user of \<open>demoManager\<close> has \<open>totalPages\<close> 10; the backend
  answers with \<open>totalPages\<close> 100 and the same tier, shots per scene and storyboard flag.
  The comparison looks at those three only, so the cached quota stays 10 and no listener
  is called. When the tier differs too, the four fields are overwritten, the quota among
  them, and the listener is called once.
\<close>

theorem validateAndUpdateTier_misses_quota:
  "getProp (the (user demoManager)) ''totalPages'' = JNum 10
   \<and> getProp (objOf (getProp (objOf quotaOnlyRefresh) ''user'')) ''totalPages'' = JNum 100
   \<and> validateAndUpdateTier (Ok quotaOnlyRefresh) demoManager = demoManager
   \<and> getProp (the (user (validateAndUpdateTier (Ok upgradeRefresh) demoManager))) ''totalPages'' = JNum (- 1)
   \<and> getProp (the (user (validateAndUpdateTier (Ok upgradeRefresh) demoManager))) ''email'' = JStr ''ada@test.com''
   \<and> length (notified (validateAndUpdateTier (Ok upgradeRefresh) demoManager)) = length (notified demoManager) + 1"
proof -
  have u: "user demoManager = Some [(''id'', JNum 7), (''email'', JStr ''ada@test.com''), (''displayName'', JStr ''ada''),
           (''provider'', JStr ''password''), (''tier'', JStr ''free''), (''usedPages'', JNum 2),
           (''totalPages'', JNum 10), (''maxShotsPerScene'', JNum 5),
           (''canGenerateStoryboards'', JBool False)]"
    by (rule demoManager_fields)
  have a: "getProp (the (user demoManager)) ''totalPages'' = JNum 10"
    by (simp add: u getProp_def)
  have b: "getProp (objOf (getProp (objOf quotaOnlyRefresh) ''user'')) ''totalPages'' = JNum 100"
    by (simp add: quotaOnlyRefresh_def objOf_def getProp_def)
  have c: "validateAndUpdateTier (Ok quotaOnlyRefresh) demoManager = demoManager"
    by (simp add: validateAndUpdateTier_def u quotaOnlyRefresh_def propsOf_def getProp_def)
  have d: "user (validateAndUpdateTier (Ok upgradeRefresh) demoManager) =
      Some [(''id'', JNum 7), (''email'', JStr ''ada@test.com''), (''displayName'', JStr ''ada''),
           (''provider'', JStr ''password''), (''tier'', JStr ''pro''), (''usedPages'', JNum 2),
           (''totalPages'', JNum (- 1)), (''maxShotsPerScene'', JNum (- 1)),
           (''canGenerateStoryboards'', JBool True)]"
    by (simp add: validateAndUpdateTier_def u upgradeRefresh_def propsOf_def getProp_def
          setProp_def hasProp_def)
  have n: "length (notified (validateAndUpdateTier (Ok upgradeRefresh) demoManager)) = length (notified demoManager) + 1"
    by (simp add: validateAndUpdateTier_def u upgradeRefresh_def propsOf_def getProp_def
          setProp_def hasProp_def notifyListeners_def demoManager_listeners sameJSON_def)
  show ?thesis using a b c d n by (simp add: getProp_def)
qed

end
